theory Spec2Isabelle
  imports Complex_Main "HOL-Library.Word"
begin

unbundle bit_operations_syntax

section \<open>Errors\<close>

text \<open>
  The ways a call into \<^verbatim>\<open>operators.cpp\<close> can end without a value.
  \<^item> \<open>InternalAssert\<close>: a failed \<^verbatim>\<open>TORCH_INTERNAL_ASSERT\<close> (fatal).
  \<^item> \<open>CheckError msg\<close>: a failed \<^verbatim>\<open>TORCH_CHECK\<close>; it throws a reported error
    whose text starts with \<open>msg\<close> (the interpolated numbers are left out).
  \<^item> \<open>OutOfRange\<close>: \<^verbatim>\<open>std::vector::at\<close> thrown by \<^verbatim>\<open>Node::input\<close>.
  \<^item> \<open>BadFunctionCall\<close>: calling an empty \<^verbatim>\<open>std::function\<close>.
  \<^item> \<open>Undefined\<close>: behaviour the language leaves undefined: dereferencing the null
    result of \<^verbatim>\<open>as<...>()\<close>, indexing a \<^verbatim>\<open>tvm::Array\<close> past its size, reading
    past the bytes of a buffer.
\<close>

datatype error = InternalAssert | CheckError string | OutOfRange | BadFunctionCall | Undefined

definition bindE :: "error + 'a \<Rightarrow> ('a \<Rightarrow> error + 'b) \<Rightarrow> error + 'b" where
  "bindE m f = (case m of Inl e \<Rightarrow> Inl e | Inr x \<Rightarrow> f x)"

definition TORCH_INTERNAL_ASSERT :: "bool \<Rightarrow> error + unit" where
  "TORCH_INTERNAL_ASSERT b = (if b then Inr () else Inl InternalAssert)"

definition TORCH_CHECK :: "bool \<Rightarrow> string \<Rightarrow> error + unit" where
  "TORCH_CHECK b msg = (if b then Inr () else Inl (CheckError msg))"

section \<open>The target IR\<close>

text \<open>
  A \<^verbatim>\<open>tvm::runtime::NDArray\<close>: its shape, the name of its element type and the bytes
  readable at \<^verbatim>\<open>data->data\<close>, lowest address first (the elements; the allocation may
  hold more bytes after them).
\<close>

record ndarray =
  nd_shape :: "nat list"
  nd_dtype :: string
  nd_data :: "8 word list"

text \<open>\<^verbatim>\<open>ConstantNode::is_scalar()\<close> of the target compiler: the array has no dimension.\<close>

definition is_scalar :: "ndarray \<Rightarrow> bool" where
  "is_scalar c = (nd_shape c = [])"

text \<open>The type annotation of a variable: none, a tensor type with its shape, or another type.\<close>

datatype ty = NoType | TensorType "int list" | OtherType

text \<open>
  The attribute records the rules fill in. Only the fields a rule assigns are kept;
  \<open>kernel_size = None\<close> is \<^verbatim>\<open>tvm::NullValue\<close>.
\<close>

record conv2d_attrs =
  conv_groups :: int
  conv_data_layout :: string
  conv_kernel_layout :: string
  conv_kernel_size :: "int list option"
  conv_strides :: "int list"
  conv_padding :: "int list"
  conv_dilation :: "int list"

record batch_norm_attrs =
  bn_epsilon :: "32 word"
  bn_axis :: int
  bn_scale :: bool
  bn_center :: bool

record avg_pool2d_attrs =
  avg_pool_size :: "int list"
  avg_strides :: "int list"
  avg_padding :: "int list"
  avg_layout :: string
  avg_ceil_mode :: bool
  avg_count_include_pad :: bool

record max_pool2d_attrs =
  max_pool_size :: "int list"
  max_strides :: "int list"
  max_padding :: "int list"
  max_layout :: string
  max_ceil_mode :: bool

record adaptive_pool2d_attrs =
  adp_output_size :: "int list"
  adp_layout :: string

record reshape_attrs =
  rs_newshape :: "int list"
  rs_reverse :: bool

datatype attrs =
    NoAttrs
  | Conv2DAttrs conv2d_attrs
  | BiasAddAttrs int
  | BatchNormAttrs batch_norm_attrs
  | AvgPool2DAttrs avg_pool2d_attrs
  | MaxPool2DAttrs max_pool2d_attrs
  | AdaptivePool2DAttrs adaptive_pool2d_attrs
  | ReshapeAttrs reshape_attrs
  | DenseAttrs

text \<open>
  A \<^verbatim>\<open>tvm::relay::Expr\<close> is a nullable reference to a node. \<open>NullExpr\<close> is the null
  reference; \<open>Call\<close> carries the operator's name (what \<^verbatim>\<open>Op::Get\<close> was given), the
  arguments and the attributes (the type arguments are always empty here).
\<close>

datatype expr =
    NullExpr
  | Constant ndarray
  | Var string ty
  | Call string "expr list" attrs
  | Tuple "expr list"
  | TupleGetItem expr nat

section \<open>Reading a buffer\<close>

text \<open>
  \<^verbatim>\<open>static_cast<T*>(c->data->data)[0]\<close> reads \<open>sizeof(T)\<close> bytes at the start of the
  buffer, on a little-endian host. A read past the bytes of the buffer is undefined.
\<close>

fun le_nat :: "8 word list \<Rightarrow> nat" where
  "le_nat [] = 0"
| "le_nat (b # bs) = unat b + 256 * le_nat bs"

definition read_uint64 :: "8 word list \<Rightarrow> error + 64 word" where
  "read_uint64 bs = (if 8 \<le> length bs then Inr (of_nat (le_nat (take 8 bs))) else Inl Undefined)"

definition read_int :: "8 word list \<Rightarrow> error + 32 word" where
  "read_int bs = (if 4 \<le> length bs then Inr (of_nat (le_nat (take 4 bs))) else Inl Undefined)"

definition read_float :: "8 word list \<Rightarrow> error + 32 word" where
  "read_float bs = (if 4 \<le> length bs then Inr (of_nat (le_nat (take 4 bs))) else Inl Undefined)"

definition read_bool :: "8 word list \<Rightarrow> error + bool" where
  "read_bool bs = (case bs of [] \<Rightarrow> Inl Undefined | b # _ \<Rightarrow> Inr (b \<noteq> 0))"

section \<open>The constant and optional-value protocol\<close>

definition isConstant :: "expr \<Rightarrow> bool" where
  "isConstant e = (case e of Constant c \<Rightarrow> True | _ \<Rightarrow> False)"

text \<open>
  \<^verbatim>\<open>relayToConstant<T>\<close>: the template parameter is the reader \<open>rd\<close> of a \<open>T\<close>.
\<close>

definition relayToConstant :: "(8 word list \<Rightarrow> error + 'a) \<Rightarrow> expr \<Rightarrow> error + 'a" where
  "relayToConstant rd e =
     (case e of
        Constant c \<Rightarrow> bindE (TORCH_INTERNAL_ASSERT (is_scalar c)) (\<lambda>_. rd (nd_data c))
      | _ \<Rightarrow> Inl InternalAssert)"

definition getNoneSentinel :: "64 word" where
  "getNoneSentinel = 0xe4fa3adecabcf036"

definition relayIsNone :: "expr \<Rightarrow> error + bool" where
  "relayIsNone e =
     (if \<not> isConstant e then Inr False
      else case e of
        Constant c \<Rightarrow>
          if \<not> is_scalar c then Inr False
          else bindE (read_uint64 (nd_data c)) (\<lambda>val. Inr (val = getNoneSentinel))
      | _ \<Rightarrow> Inl Undefined)"

text \<open>
  \<^verbatim>\<open>relayToArray<T>\<close>: \<open>e.as<TupleNode>()\<close> is null for anything but a tuple, and the
  loop dereferences it unchecked. Each field is read as an \<^verbatim>\<open>int\<close> and widened to \<open>T\<close>.
\<close>

fun relayToArray_loop :: "expr list \<Rightarrow> int list \<Rightarrow> error + int list" where
  "relayToArray_loop [] elems = Inr elems"
| "relayToArray_loop (c # cs) elems =
     bindE (relayToConstant read_int c) (\<lambda>elem. relayToArray_loop cs (elems @ [sint elem]))"

definition relayToArray :: "expr \<Rightarrow> error + int list" where
  "relayToArray e =
     (case e of
        Tuple flds \<Rightarrow> relayToArray_loop flds []
      | _ \<Rightarrow> Inl Undefined)"

section \<open>The source graph\<close>

text \<open>
  What the rules read of a source node: its operation identifier, for each input value
  whether its type is a \<^verbatim>\<open>DimensionedTensorType\<close> (and then its rank), and how many
  outputs it has.
\<close>

datatype value_type = DimensionedTensor int | OtherValueType

record node =
  node_kind :: string
  node_inputs :: "value_type list"
  node_outputs :: nat

type_synonym tvm_op_functor = "node \<Rightarrow> expr list \<Rightarrow> error + expr"

section \<open>The translation rules\<close>

text \<open>\<^verbatim>\<open>inputs[i]\<close> on a \<^verbatim>\<open>tvm::Array\<close>: no bounds check.\<close>

definition array_at :: "'a list \<Rightarrow> nat \<Rightarrow> error + 'a" where
  "array_at xs i = (if i < length xs then Inr (xs ! i) else Inl Undefined)"

definition aten_add :: tvm_op_functor where
  "aten_add n inputs =
     bindE (TORCH_INTERNAL_ASSERT (length inputs = 3)) (\<lambda>_.
     bindE (array_at inputs 0) (\<lambda>i0.
     bindE (array_at inputs 1) (\<lambda>i1.
     bindE (array_at inputs 2) (\<lambda>i2.
       case i2 of
         Constant v \<Rightarrow>
           if \<not> is_scalar v then Inl InternalAssert
           else bindE (read_int (nd_data v)) (\<lambda>x.
                bindE (TORCH_INTERNAL_ASSERT (x = 1)) (\<lambda>_.
                Inr (Call ''add'' [i0, i1] NoAttrs)))
       | _ \<Rightarrow> Inl Undefined))))"

definition aten_add_inplace :: tvm_op_functor where
  "aten_add_inplace n inputs =
     bindE (TORCH_INTERNAL_ASSERT (length inputs = 3)) (\<lambda>_.
     bindE (array_at inputs 0) (\<lambda>i0.
     bindE (array_at inputs 1) (\<lambda>i1.
     bindE (array_at inputs 2) (\<lambda>i2.
       case i2 of
         Constant v \<Rightarrow>
           if \<not> is_scalar v then Inl InternalAssert
           else bindE (read_int (nd_data v)) (\<lambda>x.
                bindE (TORCH_INTERNAL_ASSERT (x = 1)) (\<lambda>_.
                Inr (Call ''add'' [i0, i1] NoAttrs)))
       | _ \<Rightarrow> Inl Undefined))))"

text \<open>
  The kernel size of a convolution: read off the weight's tensor type when the weight is
  a variable, left null otherwise.
\<close>

definition conv_kernel_of :: "expr \<Rightarrow> error + int list option" where
  "conv_kernel_of w =
     (case w of
        Var _ t \<Rightarrow>
          (case t of
             TensorType shp \<Rightarrow>
               bindE (array_at shp 2) (\<lambda>h. bindE (array_at shp 3) (\<lambda>w'. Inr (Some [h, w'])))
           | _ \<Rightarrow> Inl InternalAssert)
      | _ \<Rightarrow> Inr None)"

definition aten_convolution :: tvm_op_functor where
  "aten_convolution n inputs =
     bindE (array_at inputs 6) (\<lambda>i6.
     bindE (relayToConstant read_bool i6) (\<lambda>is_transpose.
     let op = (if is_transpose then ''nn.conv2d_transpose'' else ''nn.conv2d'') in
     bindE (array_at inputs 0) (\<lambda>i0.
     bindE (array_at inputs 1) (\<lambda>i1.
     bindE (array_at inputs 8) (\<lambda>i8.
     bindE (relayToConstant read_int i8) (\<lambda>groups.
     bindE (conv_kernel_of i1) (\<lambda>ks.
     bindE (array_at inputs 3) (\<lambda>i3.
     bindE (relayToArray i3) (\<lambda>strides.
     bindE (array_at inputs 4) (\<lambda>i4.
     bindE (relayToArray i4) (\<lambda>padding.
     bindE (array_at inputs 5) (\<lambda>i5.
     bindE (relayToArray i5) (\<lambda>dilation.
     let out = Call op [i0, i1] (Conv2DAttrs
           \<lparr>conv_groups = sint groups, conv_data_layout = ''NCHW'',
            conv_kernel_layout = ''OIHW'', conv_kernel_size = ks,
            conv_strides = strides, conv_padding = padding, conv_dilation = dilation\<rparr>) in
     bindE (array_at inputs 2) (\<lambda>i2.
       if \<not> isConstant i2
       then Inr (Call ''nn.bias_add'' [out, i2] (BiasAddAttrs 1))
       else Inr out))))))))))))))"

text \<open>
  The placeholder of the batch-norm rule: a fresh scalar \<^verbatim>\<open>float32\<close> array holding
  \<^verbatim>\<open>1337e10\<close> rounded to single precision, whose bit pattern is \<open>0x55428F22\<close>.
\<close>

definition float_1337e10 :: "32 word" where
  "float_1337e10 = 0x55428F22"

definition placeholder_const :: expr where
  "placeholder_const =
     Constant \<lparr>nd_shape = [], nd_dtype = ''float32'', nd_data = [0x22, 0x8F, 0x42, 0x55]\<rparr>"

definition aten_batch_norm :: tvm_op_functor where
  "aten_batch_norm n inputs =
     bindE (TORCH_CHECK (length inputs = 9) ''batch_norm received '') (\<lambda>_.
     bindE (array_at inputs 5) (\<lambda>i5.
     bindE (relayToConstant read_bool i5) (\<lambda>training.
     bindE (TORCH_CHECK (training = False) ''batch_norm is in training mode'') (\<lambda>_.
     bindE (array_at inputs 7) (\<lambda>i7.
     bindE (relayToConstant read_float i7) (\<lambda>eps.
     bindE (array_at inputs 3) (\<lambda>i3.
     let v = placeholder_const;
         weight0 = Call ''broadcast_to_like'' [v, i3] NoAttrs;
         bias0 = Call ''broadcast_to_like'' [v, i3] NoAttrs in
     bindE (array_at inputs 1) (\<lambda>i1.
     bindE (relayIsNone i1) (\<lambda>none1.
     let scale = (\<not> none1); weight = (if \<not> none1 then i1 else weight0) in
     bindE (array_at inputs 2) (\<lambda>i2.
     bindE (relayIsNone i2) (\<lambda>none2.
     let center = (\<not> none2); bias = (if \<not> none2 then i2 else bias0) in
     bindE (array_at inputs 0) (\<lambda>i0.
     bindE (array_at inputs 4) (\<lambda>i4.
     let out = Call ''nn.batch_norm'' [i0, weight, bias, i3, i4] (BatchNormAttrs
           \<lparr>bn_epsilon = eps, bn_axis = 1, bn_scale = scale, bn_center = center\<rparr>) in
     bindE (TORCH_INTERNAL_ASSERT (node_outputs n = 1)) (\<lambda>_.
       if node_outputs n = 2 then Inr out
       else Inr (TupleGetItem out 0)))))))))))))))"

definition aten_relu_inplace :: tvm_op_functor where
  "aten_relu_inplace n inputs = Inr (Call ''nn.relu'' inputs NoAttrs)"

definition aten_relu :: tvm_op_functor where
  "aten_relu n inputs = Inr (Call ''nn.relu'' inputs NoAttrs)"

text \<open>
  Single-precision values, for the comparisons of the threshold rule. A \<^verbatim>\<open>float\<close> is
  widened to \<^verbatim>\<open>double\<close> exactly before it is compared with a \<^verbatim>\<open>double\<close> literal, so
  the comparison is one of exact rationals; every comparison with a NaN is false.
\<close>

datatype fval = Finite rat | PosInf | NegInf | NaN

definition float32_val :: "32 word \<Rightarrow> fval" where
  "float32_val w =
     (let s = bit w 31;
          e = unat (drop_bit 23 w AND 0xFF);
          m = unat (w AND 0x7FFFFF);
          sg = (if s then - 1 else 1) in
      if e = 255 then (if m = 0 then (if s then NegInf else PosInf) else NaN)
      else if e = 0 then Finite (sg * of_nat m / 2 ^ 149)
      else Finite (sg * of_nat (2 ^ 23 + m) * 2 ^ e / 2 ^ 150))"

definition fless :: "fval \<Rightarrow> rat \<Rightarrow> bool" where
  "fless d c = (case d of Finite q \<Rightarrow> q < c | NegInf \<Rightarrow> True | _ \<Rightarrow> False)"

definition fgreater :: "fval \<Rightarrow> rat \<Rightarrow> bool" where
  "fgreater d c = (case d of Finite q \<Rightarrow> q > c | PosInf \<Rightarrow> True | _ \<Rightarrow> False)"

text \<open>The \<^verbatim>\<open>double\<close> literal \<^verbatim>\<open>1e-7\<close>: the double nearest to \<open>1/10^7\<close>.\<close>

definition double_1e_7 :: rat where
  "double_1e_7 = 944473296573929 / 2 ^ 73"

definition aten_threshold_inplace :: tvm_op_functor where
  "aten_threshold_inplace n inputs =
     bindE (array_at inputs 0) (\<lambda>i0.
     bindE (relayIsNone i0) (\<lambda>none0.
     bindE (TORCH_CHECK (\<not> none0) []) (\<lambda>_.
     bindE (array_at inputs 1) (\<lambda>i1.
     bindE (relayIsNone i1) (\<lambda>none1.
     bindE (TORCH_CHECK (\<not> none1) []) (\<lambda>_.
     bindE (array_at inputs 2) (\<lambda>i2.
     bindE (relayIsNone i2) (\<lambda>none2.
     bindE (TORCH_CHECK (\<not> none2) []) (\<lambda>_.
     bindE (relayToConstant read_float i1) (\<lambda>d.
     bindE (TORCH_CHECK (fless (float32_val d) double_1e_7)
              ''aten::threshold_ only supported for threshold 0, got'') (\<lambda>_.
     bindE (TORCH_CHECK (fgreater (float32_val d) (- double_1e_7))
              ''aten::threshold_ only supported for threshold 0, got'') (\<lambda>_.
     bindE (relayToConstant read_float i2) (\<lambda>d'.
     bindE (TORCH_CHECK (fless (float32_val d') double_1e_7)
              ''aten::threshold_ only supported for value 0, got'') (\<lambda>_.
     bindE (TORCH_CHECK (fgreater (float32_val d') (- double_1e_7))
              ''aten::threshold_ only supported for value 0, got'') (\<lambda>_.
     Inr (Call ''nn.relu'' [i0] NoAttrs))))))))))))))))"

definition aten_mul :: tvm_op_functor where
  "aten_mul n inputs = Inr (Call ''multiply'' inputs NoAttrs)"

definition aten_avg_pool2d :: tvm_op_functor where
  "aten_avg_pool2d n inputs =
     bindE (array_at inputs 1) (\<lambda>i1.
     bindE (relayToArray i1) (\<lambda>pool_size.
     bindE (array_at inputs 2) (\<lambda>i2.
     bindE (relayToArray i2) (\<lambda>strides.
     let strides' = (if length strides = 0 then pool_size else strides) in
     bindE (array_at inputs 3) (\<lambda>i3.
     bindE (relayToArray i3) (\<lambda>padding.
     bindE (array_at inputs 4) (\<lambda>i4.
     bindE (relayToConstant read_bool i4) (\<lambda>ceil_mode.
     bindE (array_at inputs 5) (\<lambda>i5.
     bindE (relayToConstant read_bool i5) (\<lambda>count_include_pad.
     bindE (array_at inputs 0) (\<lambda>i0.
     Inr (Call ''nn.avg_pool2d'' [i0] (AvgPool2DAttrs
           \<lparr>avg_pool_size = pool_size, avg_strides = strides', avg_padding = padding,
            avg_layout = ''NCHW'', avg_ceil_mode = ceil_mode,
            avg_count_include_pad = count_include_pad\<rparr>)))))))))))))"

definition aten_adaptive_avg_pool2d :: tvm_op_functor where
  "aten_adaptive_avg_pool2d n inputs =
     bindE (array_at inputs 1) (\<lambda>i1.
     bindE (relayToArray i1) (\<lambda>output_size.
     bindE (array_at inputs 0) (\<lambda>i0.
     Inr (Call ''contrib.adaptive_avg_pool2d'' [i0] (AdaptivePool2DAttrs
           \<lparr>adp_output_size = output_size, adp_layout = ''NCHW''\<rparr>)))))"

definition aten_max_pool2d :: tvm_op_functor where
  "aten_max_pool2d n inputs =
     bindE (array_at inputs 1) (\<lambda>i1.
     bindE (relayToArray i1) (\<lambda>pool_size.
     bindE (array_at inputs 2) (\<lambda>i2.
     bindE (relayToArray i2) (\<lambda>strides.
     let strides' = (if length strides = 0 then pool_size else strides) in
     bindE (array_at inputs 3) (\<lambda>i3.
     bindE (relayToArray i3) (\<lambda>padding.
     bindE (array_at inputs 5) (\<lambda>i5.
     bindE (relayToConstant read_bool i5) (\<lambda>ceil_mode.
     bindE (array_at inputs 0) (\<lambda>i0.
     Inr (Call ''nn.max_pool2d'' [i0] (MaxPool2DAttrs
           \<lparr>max_pool_size = pool_size, max_strides = strides', max_padding = padding,
            max_layout = ''NCHW'', max_ceil_mode = ceil_mode\<rparr>)))))))))))"

text \<open>
  The reshape rule also writes a warning to \<^verbatim>\<open>std::cerr\<close> when the first element of the
  new shape is not \<open>-1\<close>; \<open>reshape_warns\<close> says when.
\<close>

definition aten_reshape :: tvm_op_functor where
  "aten_reshape n inputs =
     bindE (array_at inputs 1) (\<lambda>i1.
     bindE (relayToArray i1) (\<lambda>newshape.
     bindE (TORCH_INTERNAL_ASSERT (length newshape > 0)) (\<lambda>_.
     bindE (array_at inputs 0) (\<lambda>i0.
     Inr (Call ''reshape'' [i0] (ReshapeAttrs
           \<lparr>rs_newshape = newshape, rs_reverse = False\<rparr>))))))"

definition reshape_warns :: "expr list \<Rightarrow> bool" where
  "reshape_warns inputs =
     (case bindE (array_at inputs 1) relayToArray of
        Inr (d # _) \<Rightarrow> d \<noteq> - 1
      | _ \<Rightarrow> False)"

definition aten_linear :: tvm_op_functor where
  "aten_linear n inputs =
     (case node_inputs n of
        [] \<Rightarrow> Inl OutOfRange
      | input # _ \<Rightarrow>
          bindE (case input of
                   DimensionedTensor n_dim \<Rightarrow>
                     TORCH_CHECK (n_dim = 2)
                       ''WARNING: relay does not support dense operation on inputs more than 2 dim''
                 | OtherValueType \<Rightarrow> Inr ()) (\<lambda>_.
          bindE (array_at inputs 0) (\<lambda>i0.
          bindE (array_at inputs 1) (\<lambda>i1.
          let out = Call ''nn.dense'' [i0, i1] DenseAttrs in
          bindE (array_at inputs 2) (\<lambda>i2.
          bindE (relayIsNone i2) (\<lambda>none2.
            if \<not> none2
            then Inr (Call ''nn.bias_add'' [out, i2] (BiasAddAttrs 1))
            else Inr out))))))"

section \<open>The operator registry\<close>

text \<open>
  A registration record, and the two process-wide tables a registration writes: the
  operator map, and the operators exposed to the source framework (one
  \<^verbatim>\<open>tvm::<name>\<close> per overload of the symbol, for a record with a name). The number
  of overloads of a symbol is the source framework's, a parameter here.
\<close>

record tvm_op_map =
  op_sym :: string
  op_fn :: tvm_op_functor
  op_name :: string

record op_registry =
  operator_map :: "string \<rightharpoonup> tvm_op_functor"
  torch_operators :: "string list"

fun RegisterTVMOperator :: "(string \<Rightarrow> nat) \<Rightarrow> tvm_op_map list \<Rightarrow> op_registry \<Rightarrow> op_registry" where
  "RegisterTVMOperator getAllOperatorsFor [] r = r"
| "RegisterTVMOperator getAllOperatorsFor (op # ops) r =
     RegisterTVMOperator getAllOperatorsFor ops
       \<lparr>operator_map = (operator_map r)(op_sym op \<mapsto> op_fn op),
        torch_operators = torch_operators r @
          (if op_name op \<noteq> []
           then replicate (getAllOperatorsFor (op_sym op)) (''tvm::'' @ op_name op)
           else [])\<rparr>"

text \<open>The static table \<^verbatim>\<open>reg\<close>.\<close>

definition reg :: "tvm_op_map list" where
  "reg =
     [\<lparr>op_sym = ''aten::add'', op_fn = aten_add, op_name = []\<rparr>,
      \<lparr>op_sym = ''aten::add_'', op_fn = aten_add_inplace, op_name = []\<rparr>,
      \<lparr>op_sym = ''aten::_convolution'', op_fn = aten_convolution, op_name = []\<rparr>,
      \<lparr>op_sym = ''aten::batch_norm'', op_fn = aten_batch_norm, op_name = []\<rparr>,
      \<lparr>op_sym = ''aten::relu_'', op_fn = aten_relu_inplace, op_name = []\<rparr>,
      \<lparr>op_sym = ''aten::relu'', op_fn = aten_relu, op_name = ''relu''\<rparr>,
      \<lparr>op_sym = ''aten::threshold_'', op_fn = aten_threshold_inplace, op_name = []\<rparr>,
      \<lparr>op_sym = ''aten::mul'', op_fn = aten_mul, op_name = []\<rparr>,
      \<lparr>op_sym = ''aten::avg_pool2d'', op_fn = aten_avg_pool2d, op_name = []\<rparr>,
      \<lparr>op_sym = ''aten::adaptive_avg_pool2d'', op_fn = aten_adaptive_avg_pool2d, op_name = []\<rparr>,
      \<lparr>op_sym = ''aten::max_pool2d'', op_fn = aten_max_pool2d, op_name = []\<rparr>,
      \<lparr>op_sym = ''aten::reshape'', op_fn = aten_reshape, op_name = []\<rparr>,
      \<lparr>op_sym = ''aten::linear'', op_fn = aten_linear, op_name = []\<rparr>]"

text \<open>The operator map once the static table is registered, from empty tables.\<close>

definition getTVMOperatorMap :: "(string \<Rightarrow> nat) \<Rightarrow> (string \<rightharpoonup> tvm_op_functor)" where
  "getTVMOperatorMap getAllOperatorsFor =
     operator_map (RegisterTVMOperator getAllOperatorsFor reg
       \<lparr>operator_map = Map.empty, torch_operators = []\<rparr>)"

definition isSupported :: "(string \<rightharpoonup> tvm_op_functor) \<Rightarrow> node \<Rightarrow> bool" where
  "isSupported m n = (m (node_kind n) \<noteq> None)"

definition getOperator :: "(string \<rightharpoonup> tvm_op_functor) \<Rightarrow> node \<Rightarrow> expr list \<Rightarrow> error + expr" where
  "getOperator m n inputs =
     bindE (TORCH_INTERNAL_ASSERT (isSupported m n)) (\<lambda>_.
       case m (node_kind n) of
         Some f \<Rightarrow> f n inputs
       | None \<Rightarrow> Inl BadFunctionCall)"

section \<open>The schedule gate\<close>

text \<open>
  A schedule constructor returns a packed function or null; \<open>registerSchedule\<close> calls
  a copy of the stored constructor, so a call leaves the stored one as it was, and the
  constructor is a function of no argument here. The state the gate works on: the schedule map, whether the target compiler's registry holds
  \<^verbatim>\<open>relay.op._Register\<close>, and the calls made to it so far (operator, attribute key,
  packed function, priority).
\<close>

type_synonym packed_func = nat

type_synonym tvm_schedule_functor = "unit \<Rightarrow> packed_func option"

record gate_state =
  schedule_map :: "string \<rightharpoonup> tvm_schedule_functor"
  has_relay_op_register :: bool
  register_calls :: "(string \<times> string \<times> packed_func \<times> int) list"

fun RegisterTVMOperatorSchedule ::
  "(string \<times> tvm_schedule_functor) list \<Rightarrow> gate_state \<Rightarrow> gate_state" where
  "RegisterTVMOperatorSchedule [] st = st"
| "RegisterTVMOperatorSchedule ((name, sched_f) # scheds) st =
     RegisterTVMOperatorSchedule scheds
       (st\<lparr>schedule_map := (schedule_map st)(name \<mapsto> sched_f)\<rparr>)"

definition registerSchedule :: "string \<Rightarrow> gate_state \<Rightarrow> error + gate_state" where
  "registerSchedule name st =
     bindE (TORCH_INTERNAL_ASSERT (schedule_map st name \<noteq> None)) (\<lambda>_.
       case schedule_map st name of
         None \<Rightarrow> Inl BadFunctionCall
       | Some sched_f \<Rightarrow>
           bindE (TORCH_INTERNAL_ASSERT (has_relay_op_register st)) (\<lambda>_.
             case sched_f () of
               Some sched \<Rightarrow>
                 Inr (st\<lparr>register_calls := register_calls st @ [(name, ''FTVMSchedule'', sched, 10)],
                         schedule_map := (schedule_map st)(name \<mapsto> (\<lambda>_. None))\<rparr>)
             | None \<Rightarrow> Inr st))"

section \<open>The range of the threshold rule, in exact terms\<close>

text \<open>
  The range the specification gives for the threshold and the replacement value: a
  finite single strictly between \<open>-10^-7\<close> and \<open>10^-7\<close>, as rationals.
\<close>

definition strictly_within_1e_7 :: "32 word \<Rightarrow> bool" where
  "strictly_within_1e_7 d =
     (case float32_val d of Finite q \<Rightarrow> - (1 / 10 ^ 7) < q \<and> q < 1 / 10 ^ 7 | _ \<Rightarrow> False)"

section \<open>Well-formed nodes\<close>

text \<open>
  What a rule needs of an input it reads: a scalar constant with at least \<open>k\<close> readable
  bytes (one for a \<^verbatim>\<open>bool\<close>, four for an \<^verbatim>\<open>int\<close> or a \<^verbatim>\<open>float\<close>); a tuple
  whose fields are scalar constants of four readable bytes; an expression on which the
  sentinel test reads inside the buffer (a scalar constant needs eight bytes for it);
  a weight that, if it is a variable, is annotated with a tensor type of at least four
  dimensions.
\<close>

definition scalar_with :: "nat \<Rightarrow> expr \<Rightarrow> bool" where
  "scalar_with k e = (case e of Constant c \<Rightarrow> is_scalar c \<and> k \<le> length (nd_data c) | _ \<Rightarrow> False)"

definition int_tuple :: "expr \<Rightarrow> bool" where
  "int_tuple e = (case e of Tuple flds \<Rightarrow> list_all (scalar_with 4) flds | _ \<Rightarrow> False)"

definition none_testable :: "expr \<Rightarrow> bool" where
  "none_testable e = (case e of Constant c \<Rightarrow> \<not> is_scalar c \<or> 8 \<le> length (nd_data c) | _ \<Rightarrow> True)"

definition weight_typed :: "expr \<Rightarrow> bool" where
  "weight_typed w =
     (case w of
        Var _ t \<Rightarrow> (case t of TensorType shp \<Rightarrow> 4 \<le> length shp | _ \<Rightarrow> False)
      | _ \<Rightarrow> True)"

text \<open>
  The argument contract of each registered kind: the nodes and inputs its rule accepts.
  The addition rules want three inputs and a scale reading as the \<^verbatim>\<open>int\<close> 1; the
  batch-norm rule wants nine inputs, one output and a false training flag; the
  threshold rule wants three inputs that are not the sentinel, with threshold and value
  reading as singles strictly between \<open>-10^-7\<close> and \<open>10^-7\<close>; reshape wants a
  non-empty shape; linear wants a first input value of rank 2 when its rank is known;
  \<open>relu\<close>, \<open>relu_\<close> and \<open>mul\<close> accept any inputs. No other kind is well-formed.
\<close>

definition well_formed :: "node \<Rightarrow> expr list \<Rightarrow> bool" where
  "well_formed n inputs =
     (let k = node_kind n in
      if k = ''aten::add'' \<or> k = ''aten::add_'' then
        length inputs = 3 \<and> relayToConstant read_int (inputs ! 2) = Inr 1
      else if k = ''aten::_convolution'' then
        9 \<le> length inputs \<and> scalar_with 1 (inputs ! 6) \<and> scalar_with 4 (inputs ! 8)
        \<and> weight_typed (inputs ! 1)
        \<and> int_tuple (inputs ! 3) \<and> int_tuple (inputs ! 4) \<and> int_tuple (inputs ! 5)
      else if k = ''aten::batch_norm'' then
        length inputs = 9 \<and> node_outputs n = 1
        \<and> relayToConstant read_bool (inputs ! 5) = Inr False \<and> scalar_with 4 (inputs ! 7)
        \<and> none_testable (inputs ! 1) \<and> none_testable (inputs ! 2)
      else if k = ''aten::relu_'' \<or> k = ''aten::relu'' \<or> k = ''aten::mul'' then True
      else if k = ''aten::threshold_'' then
        3 \<le> length inputs
        \<and> relayIsNone (inputs ! 0) = Inr False \<and> relayIsNone (inputs ! 1) = Inr False
        \<and> relayIsNone (inputs ! 2) = Inr False
        \<and> (case relayToConstant read_float (inputs ! 1) of
              Inr t \<Rightarrow> strictly_within_1e_7 t | Inl _ \<Rightarrow> False)
        \<and> (case relayToConstant read_float (inputs ! 2) of
              Inr v \<Rightarrow> strictly_within_1e_7 v | Inl _ \<Rightarrow> False)
      else if k = ''aten::avg_pool2d'' then
        6 \<le> length inputs
        \<and> int_tuple (inputs ! 1) \<and> int_tuple (inputs ! 2) \<and> int_tuple (inputs ! 3)
        \<and> scalar_with 1 (inputs ! 4) \<and> scalar_with 1 (inputs ! 5)
      else if k = ''aten::adaptive_avg_pool2d'' then
        2 \<le> length inputs \<and> int_tuple (inputs ! 1)
      else if k = ''aten::max_pool2d'' then
        6 \<le> length inputs
        \<and> int_tuple (inputs ! 1) \<and> int_tuple (inputs ! 2) \<and> int_tuple (inputs ! 3)
        \<and> scalar_with 1 (inputs ! 5)
      else if k = ''aten::reshape'' then
        2 \<le> length inputs \<and> int_tuple (inputs ! 1) \<and> inputs ! 1 \<noteq> Tuple []
      else if k = ''aten::linear'' then
        (case node_inputs n of
           [] \<Rightarrow> False
         | t # _ \<Rightarrow> (case t of DimensionedTensor d \<Rightarrow> d = 2 | OtherValueType \<Rightarrow> True))
        \<and> 3 \<le> length inputs \<and> none_testable (inputs ! 2)
      else False)"

section \<open>Scalar constants for examples\<close>

text \<open>A scalar constant of the given element type over the given bytes.\<close>

definition scalar_const :: "string \<Rightarrow> 8 word list \<Rightarrow> expr" where
  "scalar_const t bs = Constant \<lparr>nd_shape = [], nd_dtype = t, nd_data = bs\<rparr>"

section \<open>Auxiliary facts\<close>

lemma bindE_Inr_iff: "bindE m f = Inr y \<longleftrightarrow> (\<exists>x. m = Inr x \<and> f x = Inr y)"
  by (cases m) (simp_all add: bindE_def)

lemma bindE_Inr [simp]: "bindE (Inr x) f = f x"
  by (simp add: bindE_def)

lemma bindE_Inl [simp]: "bindE (Inl e) f = Inl e"
  by (simp add: bindE_def)

lemma relayToConstant_Inr_iff:
  "relayToConstant rd e = Inr x \<longleftrightarrow> (\<exists>c. e = Constant c \<and> is_scalar c \<and> rd (nd_data c) = Inr x)"
  by (cases e) (auto simp: relayToConstant_def TORCH_INTERNAL_ASSERT_def)

lemma relayToConstant_not_constant:
  "\<not> isConstant e \<Longrightarrow> relayToConstant rd e = Inl InternalAssert"
  by (cases e) (auto simp: relayToConstant_def isConstant_def)

text \<open>
  The loop of \<open>relayToArray\<close> returns exactly when every field reads as a scalar
  \<^verbatim>\<open>int\<close> constant, and then appends the values read, in the order of the fields.
\<close>

lemma relayToArray_loop_iff:
  "relayToArray_loop fs acc = Inr ys \<longleftrightarrow>
     (\<exists>xs. list_all2 (\<lambda>f x. relayToConstant read_int f = Inr x) fs xs \<and> ys = acc @ map sint xs)"
proof (induction fs arbitrary: acc)
  case Nil
  then show ?case by auto
next
  case (Cons f fs)
  show ?case
  proof
    assume "relayToArray_loop (f # fs) acc = Inr ys"
    then obtain x xs where x: "relayToConstant read_int f = Inr x"
      and l: "list_all2 (\<lambda>f x. relayToConstant read_int f = Inr x) fs xs"
      and y: "ys = (acc @ [sint x]) @ map sint xs"
      by (auto simp: bindE_Inr_iff Cons.IH)
    from x l have "list_all2 (\<lambda>f x. relayToConstant read_int f = Inr x) (f # fs) (x # xs)"
      by simp
    moreover from y have "ys = acc @ map sint (x # xs)" by simp
    ultimately show "\<exists>xs. list_all2 (\<lambda>f x. relayToConstant read_int f = Inr x) (f # fs) xs
        \<and> ys = acc @ map sint xs"
      by blast
  next
    assume "\<exists>xs. list_all2 (\<lambda>f x. relayToConstant read_int f = Inr x) (f # fs) xs
        \<and> ys = acc @ map sint xs"
    then obtain x xs where x: "relayToConstant read_int f = Inr x"
      and l: "list_all2 (\<lambda>f x. relayToConstant read_int f = Inr x) fs xs"
      and y: "ys = acc @ map sint (x # xs)"
      by (auto simp: list_all2_Cons1)
    from l y have "relayToArray_loop fs (acc @ [sint x]) = Inr ys"
      unfolding Cons.IH by auto
    with x show "relayToArray_loop (f # fs) acc = Inr ys"
      by simp
  qed
qed

section \<open>The none sentinel\<close>

text \<open>
  C2, as the code has it. \<open>relayIsNone\<close> answers true exactly for a scalar constant
  whose first eight bytes, read as one unsigned 64-bit value, are the sentinel
  \<open>0xe4fa3adecabcf036\<close>; it answers false for every expression that is not a
  constant and for every constant that is not a scalar. The declared element type
  plays no part: whatever scalar holds the pattern is taken for "none".
\<close>

theorem relayIsNone_spec:
  "(relayIsNone e = Inr True \<longleftrightarrow>
      (\<exists>c. e = Constant c \<and> is_scalar c \<and> read_uint64 (nd_data c) = Inr getNoneSentinel))
   \<and> (\<not> isConstant e \<longrightarrow> relayIsNone e = Inr False)
   \<and> (\<forall>c. e = Constant c \<and> \<not> is_scalar c \<longrightarrow> relayIsNone e = Inr False)"
  by (cases e) (auto simp: relayIsNone_def isConstant_def bindE_Inr_iff)

theorem relayIsNone_spec_witness:
  "relayIsNone (Constant \<lparr>nd_shape = [], nd_dtype = ''uint64'',
        nd_data = [0x36, 0xf0, 0xbc, 0xca, 0xde, 0x3a, 0xfa, 0xe4]\<rparr>) = Inr True
   \<and> relayIsNone (Var ''x'' NoType) = Inr False
   \<and> relayIsNone (Constant \<lparr>nd_shape = [1], nd_dtype = ''uint64'',
        nd_data = [0x36, 0xf0, 0xbc, 0xca, 0xde, 0x3a, 0xfa, 0xe4]\<rparr>) = Inr False"
proof -
  let ?bs = "[0x36, 0xf0, 0xbc, 0xca, 0xde, 0x3a, 0xfa, 0xe4] :: 8 word list"
  let ?c = "\<lparr>nd_shape = [], nd_dtype = ''uint64'', nd_data = ?bs\<rparr>"
  let ?d = "\<lparr>nd_shape = [1], nd_dtype = ''uint64'', nd_data = ?bs\<rparr>"
  have "is_scalar ?c \<and> read_uint64 (nd_data ?c) = Inr getNoneSentinel"
    by (simp add: is_scalar_def read_uint64_def getNoneSentinel_def)
  then have "relayIsNone (Constant ?c) = Inr True"
    using relayIsNone_spec [of "Constant ?c"] by blast
  moreover have "relayIsNone (Var ''x'' NoType) = Inr False"
    using relayIsNone_spec [of "Var ''x'' NoType"] by (simp add: isConstant_def)
  moreover have "relayIsNone (Constant ?d) = Inr False"
    using relayIsNone_spec [of "Constant ?d"] by (simp add: is_scalar_def)
  ultimately show ?thesis by simp
qed

text \<open>
  The claim that no real scalar is mistaken for the sentinel fails: the \<^verbatim>\<open>int64\<close>
  scalar \<open>-1947179160325787594\<close> has the sentinel's bytes and is taken for "none";
  so is the \<^verbatim>\<open>float32\<close> scalar \<open>-6191131\<close> when the four bytes after it are the
  sentinel's upper half.
\<close>

theorem relayIsNone_collision:
  "is_scalar \<lparr>nd_shape = [], nd_dtype = ''int64'',
              nd_data = [0x36, 0xf0, 0xbc, 0xca, 0xde, 0x3a, 0xfa, 0xe4]\<rparr>
   \<and> map_sum id sint
        (read_uint64 [0x36, 0xf0, 0xbc, 0xca, 0xde, 0x3a, 0xfa, 0xe4]) = Inr (- 1947179160325787594)
   \<and> relayIsNone (Constant \<lparr>nd_shape = [], nd_dtype = ''int64'',
        nd_data = [0x36, 0xf0, 0xbc, 0xca, 0xde, 0x3a, 0xfa, 0xe4]\<rparr>) = Inr True
   \<and> map_sum id float32_val
        (relayToConstant read_float (Constant \<lparr>nd_shape = [], nd_dtype = ''float32'',
           nd_data = [0x36, 0xf0, 0xbc, 0xca, 0xde, 0x3a, 0xfa, 0xe4]\<rparr>))
       = Inr (Finite (- 6191131))
   \<and> relayIsNone (Constant \<lparr>nd_shape = [], nd_dtype = ''float32'',
        nd_data = [0x36, 0xf0, 0xbc, 0xca, 0xde, 0x3a, 0xfa, 0xe4]\<rparr>) = Inr True"
  by (simp add: relayIsNone_def isConstant_def is_scalar_def read_uint64_def getNoneSentinel_def
      relayToConstant_def TORCH_INTERNAL_ASSERT_def read_float_def float32_val_def bit_iff_odd)

section \<open>Decoding a tuple\<close>

text \<open>
  C10. \<open>relayToArray\<close> returns a value exactly for a tuple whose every field reads as
  a scalar \<^verbatim>\<open>int\<close> constant, and the value is the fields' values in order, one for
  each field; so a result means the argument was a tuple of scalar constants. The empty
  tuple gives the empty array. For an argument that is not a tuple the null result of
  the cast is dereferenced unchecked (the undefined branch), where the scalar reader
  \<open>relayToConstant\<close> fails its assertion on an argument that is not a constant.
\<close>

theorem relayToArray_spec:
  "(relayToArray e = Inr ys \<longleftrightarrow>
      (\<exists>fs xs. e = Tuple fs \<and> list_all2 (\<lambda>f x. relayToConstant read_int f = Inr x) fs xs
         \<and> ys = map sint xs))
   \<and> (relayToArray e = Inr ys \<longrightarrow>
        (\<exists>fs. e = Tuple fs \<and> length ys = length fs
           \<and> (\<forall>f \<in> set fs. \<exists>c. f = Constant c \<and> is_scalar c)))
   \<and> relayToArray (Tuple []) = Inr []
   \<and> ((\<forall>fs. e \<noteq> Tuple fs) \<longrightarrow> relayToArray e = Inl Undefined)
   \<and> (\<not> isConstant e \<longrightarrow> relayToConstant rd e = Inl InternalAssert)"
proof -
  have a: "relayToArray e = Inr ys \<longleftrightarrow>
      (\<exists>fs xs. e = Tuple fs \<and> list_all2 (\<lambda>f x. relayToConstant read_int f = Inr x) fs xs
         \<and> ys = map sint xs)"
    by (cases e) (auto simp: relayToArray_def relayToArray_loop_iff)
  have b: "\<exists>fs. e = Tuple fs \<and> length ys = length fs
           \<and> (\<forall>f \<in> set fs. \<exists>c. f = Constant c \<and> is_scalar c)" if "relayToArray e = Inr ys"
  proof -
    from that a obtain fs xs where e: "e = Tuple fs"
      and l: "list_all2 (\<lambda>f x. relayToConstant read_int f = Inr x) fs xs" and y: "ys = map sint xs"
      by blast
    have "\<exists>c. f = Constant c \<and> is_scalar c" if "f \<in> set fs" for f
    proof -
      from that l obtain x where "relayToConstant read_int f = Inr x"
        by (auto simp: list_all2_conv_all_nth in_set_conv_nth)
      then show ?thesis by (auto simp: relayToConstant_Inr_iff)
    qed
    with e l y show ?thesis by (auto dest: list_all2_lengthD)
  qed
  have c: "relayToArray (Tuple []) = Inr []" by (simp add: relayToArray_def)
  have d: "relayToArray e = Inl Undefined" if "\<forall>fs. e \<noteq> Tuple fs"
    using that by (cases e) (auto simp: relayToArray_def)
  show ?thesis using a b c d relayToConstant_not_constant by blast
qed

theorem relayToArray_spec_witness:
  "relayToArray (Tuple [Constant \<lparr>nd_shape = [], nd_dtype = ''int32'', nd_data = [3, 0, 0, 0]\<rparr>,
                        Constant \<lparr>nd_shape = [], nd_dtype = ''int32'', nd_data = [2, 0, 0, 0]\<rparr>])
     = Inr [3, 2]
   \<and> relayToArray (Var ''x'' NoType) = Inl Undefined
   \<and> relayToConstant read_int (Var ''x'' NoType) = Inl InternalAssert"
proof -
  let ?a = "Constant \<lparr>nd_shape = [], nd_dtype = ''int32'', nd_data = [3, 0, 0, 0]\<rparr>"
  let ?b = "Constant \<lparr>nd_shape = [], nd_dtype = ''int32'', nd_data = [2, 0, 0, 0]\<rparr>"
  have a: "relayToConstant read_int ?a = Inr 3"
    by (simp add: relayToConstant_def is_scalar_def TORCH_INTERNAL_ASSERT_def read_int_def)
  have b: "relayToConstant read_int ?b = Inr 2"
    by (simp add: relayToConstant_def is_scalar_def TORCH_INTERNAL_ASSERT_def read_int_def)
  have "list_all2 (\<lambda>f x. relayToConstant read_int f = Inr x) [?a, ?b] [3, 2]"
    using a b by simp
  then have "relayToArray (Tuple [?a, ?b]) = Inr (map sint [3, 2 :: 32 word])"
    using relayToArray_spec [of "Tuple [?a, ?b]" "map sint [3, 2 :: 32 word]" read_int] by blast
  moreover have "relayToArray (Var ''x'' NoType) = Inl Undefined"
    using relayToArray_spec [of "Var ''x'' NoType" "[]" read_int] by simp
  moreover have "relayToConstant read_int (Var ''x'' NoType) = Inl InternalAssert"
    using relayToArray_spec [of "Var ''x'' NoType" "[]" read_int] by (simp add: isConstant_def)
  ultimately show ?thesis by simp
qed

section \<open>Evaluation and elimination rules\<close>

lemma array_at_Inr_iff: "array_at xs i = Inr x \<longleftrightarrow> i < length xs \<and> x = xs ! i"
  by (auto simp: array_at_def)

lemma bindE_InrE:
  assumes "bindE m f = Inr y"
  obtains x where "m = Inr x" and "f x = Inr y"
  using assms by (auto simp: bindE_Inr_iff)

lemma array_at_InrE:
  assumes "array_at xs i = Inr x"
  obtains "i < length xs" and "x = xs ! i"
  using assms by (auto simp: array_at_def split: if_splits)

lemmas eval_defs =
  array_at_def scalar_const_def relayToConstant_def relayToArray_def relayIsNone_def
  isConstant_def is_scalar_def read_int_def read_bool_def read_float_def read_uint64_def
  getNoneSentinel_def TORCH_INTERNAL_ASSERT_def TORCH_CHECK_def conv_kernel_of_def

section \<open>When the protocol functions return\<close>

lemma relayToConstant_bool_ex:
  "(\<exists>b. relayToConstant read_bool e = Inr b) \<longleftrightarrow> scalar_with 1 e"
  by (cases e)
    (auto simp: relayToConstant_def scalar_with_def TORCH_INTERNAL_ASSERT_def read_bool_def
      split: list.splits)

lemma relayToConstant_int_ex:
  "(\<exists>x. relayToConstant read_int e = Inr x) \<longleftrightarrow> scalar_with 4 e"
  by (cases e)
    (auto simp: relayToConstant_def scalar_with_def TORCH_INTERNAL_ASSERT_def read_int_def)

lemma relayToConstant_float_ex:
  "(\<exists>x. relayToConstant read_float e = Inr x) \<longleftrightarrow> scalar_with 4 e"
  by (cases e)
    (auto simp: relayToConstant_def scalar_with_def TORCH_INTERNAL_ASSERT_def read_float_def)

lemma relayIsNone_ex:
  "(\<exists>b. relayIsNone e = Inr b) \<longleftrightarrow> none_testable e"
  by (cases e)
    (auto simp: relayIsNone_def none_testable_def isConstant_def read_uint64_def)

lemma conv_kernel_of_ex:
  "(\<exists>ks. conv_kernel_of w = Inr ks) \<longleftrightarrow> weight_typed w"
  by (cases w)
    (auto simp: conv_kernel_of_def weight_typed_def array_at_def split: ty.splits)

lemma relayToArray_loop_ex:
  "(\<exists>ys. relayToArray_loop fs acc = Inr ys) \<longleftrightarrow> list_all (scalar_with 4) fs"
proof (induction fs arbitrary: acc)
  case Nil
  then show ?case by simp
next
  case (Cons f fs)
  have "(\<exists>ys. relayToArray_loop (f # fs) acc = Inr ys) \<longleftrightarrow>
      (\<exists>x. relayToConstant read_int f = Inr x \<and> (\<exists>ys. relayToArray_loop fs (acc @ [sint x]) = Inr ys))"
    by (auto simp: bindE_Inr_iff)
  also have "\<dots> \<longleftrightarrow> (\<exists>x. relayToConstant read_int f = Inr x) \<and> list_all (scalar_with 4) fs"
    by (simp add: Cons.IH)
  also have "\<dots> \<longleftrightarrow> list_all (scalar_with 4) (f # fs)"
    by (simp add: relayToConstant_int_ex)
  finally show ?case .
qed

lemma relayToArray_ex:
  "(\<exists>ys. relayToArray e = Inr ys) \<longleftrightarrow> int_tuple e"
  by (cases e) (simp_all add: relayToArray_def int_tuple_def relayToArray_loop_ex)

lemma relayToArray_Nil_iff: "relayToArray e = Inr [] \<longleftrightarrow> e = Tuple []"
proof
  assume "relayToArray e = Inr []"
  then obtain fs xs where "e = Tuple fs"
    and "list_all2 (\<lambda>f x. relayToConstant read_int f = Inr x) fs xs" and "[] = map sint xs"
    by (cases e) (auto simp: relayToArray_def relayToArray_loop_iff)
  then show "e = Tuple []" by auto
qed (simp add: relayToArray_def)

section \<open>Addition\<close>

text \<open>
  What the two addition rules do on the inputs they check: they return exactly for three
  inputs whose third is a scalar constant reading as the \<^verbatim>\<open>int\<close> 1, and then the
  result is the binary \<open>add\<close> of the first two inputs; any other number of inputs, and
  a constant third input that is not a scalar or does not read as 1, fail the assertion.
\<close>

lemma aten_add_success_iff:
  "aten_add n inputs = Inr e \<longleftrightarrow>
     length inputs = 3
     \<and> (\<exists>c. inputs ! 2 = Constant c \<and> is_scalar c \<and> read_int (nd_data c) = Inr 1)
     \<and> e = Call ''add'' [inputs ! 0, inputs ! 1] NoAttrs"
  by (auto simp: aten_add_def bindE_Inr_iff TORCH_INTERNAL_ASSERT_def array_at_Inr_iff
      split: expr.splits if_splits)

lemma aten_add_inplace_success_iff:
  "aten_add_inplace n inputs = Inr e \<longleftrightarrow>
     length inputs = 3
     \<and> (\<exists>c. inputs ! 2 = Constant c \<and> is_scalar c \<and> read_int (nd_data c) = Inr 1)
     \<and> e = Call ''add'' [inputs ! 0, inputs ! 1] NoAttrs"
  by (auto simp: aten_add_inplace_def bindE_Inr_iff TORCH_INTERNAL_ASSERT_def array_at_Inr_iff
      split: expr.splits if_splits)

lemma aten_add_arity:
  "length inputs \<noteq> 3 \<Longrightarrow> aten_add n inputs = Inl InternalAssert"
  "length inputs \<noteq> 3 \<Longrightarrow> aten_add_inplace n inputs = Inl InternalAssert"
  by (simp_all add: aten_add_def aten_add_inplace_def TORCH_INTERNAL_ASSERT_def)

lemma aten_add_scale:
  assumes "length inputs = 3" and "inputs ! 2 = Constant c"
    and "read_int (nd_data c) = Inr x" and "\<not> (is_scalar c \<and> x = 1)"
  shows "aten_add n inputs = Inl InternalAssert"
    and "aten_add_inplace n inputs = Inl InternalAssert"
  using assms
  by (auto simp: aten_add_def aten_add_inplace_def TORCH_INTERNAL_ASSERT_def array_at_def)

lemma aten_add_scale_two:
  "aten_add n [Var ''a'' NoType, Var ''b'' NoType, scalar_const ''int32'' [2, 0, 0, 0]]
     = Inl InternalAssert
   \<and> aten_add n [Var ''a'' NoType, Var ''b'' NoType, scalar_const ''int32'' [1, 0, 0, 0]]
     = Inr (Call ''add'' [Var ''a'' NoType, Var ''b'' NoType] NoAttrs)"
  by (simp add: aten_add_def eval_defs)

lemma aten_add_returns:
  "(\<exists>e. aten_add n inputs = Inr e) \<longleftrightarrow>
     length inputs = 3 \<and> relayToConstant read_int (inputs ! 2) = Inr 1"
  "(\<exists>e. aten_add_inplace n inputs = Inr e) \<longleftrightarrow>
     length inputs = 3 \<and> relayToConstant read_int (inputs ! 2) = Inr 1"
  by (auto simp: aten_add_success_iff aten_add_inplace_success_iff relayToConstant_Inr_iff)

text \<open>
  C7 at a third input that is not a constant. The rule casts the third input to a
  constant node and calls \<^verbatim>\<open>is_scalar\<close> on the result without the null check that
  \<open>relayToConstant\<close> makes: the assertion is never reached, the null pointer is
  dereferenced.
\<close>

theorem aten_add_unchecked_cast:
  "aten_add \<lparr>node_kind = ''aten::add'', node_inputs = [], node_outputs = 1\<rparr>
       [Var ''a'' NoType, Var ''b'' NoType, Var ''alpha'' NoType] = Inl Undefined
   \<and> aten_add_inplace \<lparr>node_kind = ''aten::add_'', node_inputs = [], node_outputs = 1\<rparr>
       [Var ''a'' NoType, Var ''b'' NoType, Var ''alpha'' NoType] = Inl Undefined
   \<and> relayToConstant read_int (Var ''alpha'' NoType) = Inl InternalAssert"
  by (simp add: aten_add_def aten_add_inplace_def TORCH_INTERNAL_ASSERT_def array_at_def
      relayToConstant_def)

section \<open>Convolution\<close>

text \<open>The convolution rule: when it returns, and what.\<close>

lemma aten_convolution_Inr_iff:
  "aten_convolution n inputs = Inr e \<longleftrightarrow>
     9 \<le> length inputs
     \<and> (\<exists>is_transpose groups ks strides padding dilation.
          relayToConstant read_bool (inputs ! 6) = Inr is_transpose
          \<and> relayToConstant read_int (inputs ! 8) = Inr groups
          \<and> conv_kernel_of (inputs ! 1) = Inr ks
          \<and> relayToArray (inputs ! 3) = Inr strides
          \<and> relayToArray (inputs ! 4) = Inr padding
          \<and> relayToArray (inputs ! 5) = Inr dilation
          \<and> e = (let conv = Call (if is_transpose then ''nn.conv2d_transpose'' else ''nn.conv2d'')
                        [inputs ! 0, inputs ! 1]
                        (Conv2DAttrs
                          \<lparr>conv_groups = sint groups, conv_data_layout = ''NCHW'',
                           conv_kernel_layout = ''OIHW'', conv_kernel_size = ks,
                           conv_strides = strides, conv_padding = padding,
                           conv_dilation = dilation\<rparr>)
                  in if isConstant (inputs ! 2) then conv
                     else Call ''nn.bias_add'' [conv, inputs ! 2] (BiasAddAttrs 1)))"
  (is "?l \<longleftrightarrow> ?r")
proof
  assume ?l
  then show ?r
    unfolding aten_convolution_def Let_def
    by (elim bindE_InrE array_at_InrE) (simp split: if_splits)
next
  assume ?r
  then show ?l
    by (auto simp: aten_convolution_def array_at_def Let_def)
qed

lemma aten_convolution_returns:
  "(\<exists>e. aten_convolution n inputs = Inr e) \<longleftrightarrow>
     9 \<le> length inputs \<and> scalar_with 1 (inputs ! 6) \<and> scalar_with 4 (inputs ! 8)
     \<and> weight_typed (inputs ! 1)
     \<and> int_tuple (inputs ! 3) \<and> int_tuple (inputs ! 4) \<and> int_tuple (inputs ! 5)"
  unfolding aten_convolution_Inr_iff
    relayToConstant_bool_ex [symmetric] relayToConstant_int_ex [symmetric]
    conv_kernel_of_ex [symmetric] relayToArray_ex [symmetric]
  by blast

text \<open>
  C3. The convolution rule returns exactly when it has nine inputs, input 6 and input 8
  are scalar constants it can read as a \<^verbatim>\<open>bool\<close> and an \<^verbatim>\<open>int\<close>, the weight is typed
  (if it is a variable) and inputs 3, 4 and 5 are tuples of scalar \<^verbatim>\<open>int\<close> constants;
  whether input 2 is a constant plays no part in that. The operator of the convolution
  call is then \<open>nn.conv2d_transpose\<close> if the boolean at index 6 is true and
  \<open>nn.conv2d\<close> otherwise, its arguments are inputs 0 and 1, and the result is that
  call alone when input 2 is a constant, and \<open>nn.bias_add\<close> with axis 1 of that call
  and input 2 when input 2 is not a constant.
\<close>

theorem aten_convolution_spec:
  "(aten_convolution n inputs = Inr e \<longleftrightarrow>
     9 \<le> length inputs
     \<and> (\<exists>is_transpose groups ks strides padding dilation.
          relayToConstant read_bool (inputs ! 6) = Inr is_transpose
          \<and> relayToConstant read_int (inputs ! 8) = Inr groups
          \<and> conv_kernel_of (inputs ! 1) = Inr ks
          \<and> relayToArray (inputs ! 3) = Inr strides
          \<and> relayToArray (inputs ! 4) = Inr padding
          \<and> relayToArray (inputs ! 5) = Inr dilation
          \<and> e = (let conv = Call (if is_transpose then ''nn.conv2d_transpose'' else ''nn.conv2d'')
                        [inputs ! 0, inputs ! 1]
                        (Conv2DAttrs
                          \<lparr>conv_groups = sint groups, conv_data_layout = ''NCHW'',
                           conv_kernel_layout = ''OIHW'', conv_kernel_size = ks,
                           conv_strides = strides, conv_padding = padding,
                           conv_dilation = dilation\<rparr>)
                  in if isConstant (inputs ! 2) then conv
                     else Call ''nn.bias_add'' [conv, inputs ! 2] (BiasAddAttrs 1))))
   \<and> ((\<exists>e'. aten_convolution n inputs = Inr e') \<longleftrightarrow>
        9 \<le> length inputs \<and> scalar_with 1 (inputs ! 6) \<and> scalar_with 4 (inputs ! 8)
        \<and> weight_typed (inputs ! 1)
        \<and> int_tuple (inputs ! 3) \<and> int_tuple (inputs ! 4) \<and> int_tuple (inputs ! 5))"
  using aten_convolution_Inr_iff [of n inputs e] aten_convolution_returns [of n inputs]
  by (rule conjI)

theorem aten_convolution_spec_witness:
  "aten_convolution \<lparr>node_kind = ''aten::_convolution'', node_inputs = [], node_outputs = 1\<rparr>
     [Var ''input'' NoType, Var ''weight'' (TensorType [8, 3, 5, 5]), Var ''bias'' NoType,
      Tuple [scalar_const ''int32'' [2, 0, 0, 0], scalar_const ''int32'' [2, 0, 0, 0]],
      Tuple [scalar_const ''int32'' [0, 0, 0, 0], scalar_const ''int32'' [0, 0, 0, 0]],
      Tuple [scalar_const ''int32'' [1, 0, 0, 0], scalar_const ''int32'' [1, 0, 0, 0]],
      scalar_const ''bool'' [1], Tuple [], scalar_const ''int32'' [1, 0, 0, 0]]
   = Inr (Call ''nn.bias_add''
            [Call ''nn.conv2d_transpose'' [Var ''input'' NoType, Var ''weight'' (TensorType [8, 3, 5, 5])]
               (Conv2DAttrs \<lparr>conv_groups = 1, conv_data_layout = ''NCHW'',
                  conv_kernel_layout = ''OIHW'', conv_kernel_size = Some [5, 5],
                  conv_strides = [2, 2], conv_padding = [0, 0], conv_dilation = [1, 1]\<rparr>),
             Var ''bias'' NoType]
            (BiasAddAttrs 1))
   \<and> aten_convolution \<lparr>node_kind = ''aten::_convolution'', node_inputs = [], node_outputs = 1\<rparr>
     [Var ''input'' NoType, scalar_const ''float32'' [0, 0, 128, 63], scalar_const ''uint64'' [54, 240, 188, 202, 222, 58, 250, 228],
      Tuple [scalar_const ''int32'' [1, 0, 0, 0], scalar_const ''int32'' [1, 0, 0, 0]],
      Tuple [scalar_const ''int32'' [0, 0, 0, 0], scalar_const ''int32'' [0, 0, 0, 0]],
      Tuple [scalar_const ''int32'' [1, 0, 0, 0], scalar_const ''int32'' [1, 0, 0, 0]],
      scalar_const ''bool'' [0], Tuple [], scalar_const ''int32'' [1, 0, 0, 0]]
   = Inr (Call ''nn.conv2d'' [Var ''input'' NoType, scalar_const ''float32'' [0, 0, 128, 63]]
            (Conv2DAttrs \<lparr>conv_groups = 1, conv_data_layout = ''NCHW'',
               conv_kernel_layout = ''OIHW'', conv_kernel_size = None,
               conv_strides = [1, 1], conv_padding = [0, 0], conv_dilation = [1, 1]\<rparr>))
   \<and> aten_convolution \<lparr>node_kind = ''aten::_convolution'', node_inputs = [], node_outputs = 1\<rparr>
     [Var ''input'' NoType, Var ''weight'' (TensorType [8, 3, 5, 5]), Var ''bias'' NoType,
      Tuple [scalar_const ''int32'' [1, 0, 0, 0], scalar_const ''int32'' [1, 0, 0, 0]],
      Tuple [scalar_const ''int32'' [2, 0, 0, 0], scalar_const ''int32'' [2, 0, 0, 0]],
      Tuple [scalar_const ''int32'' [1, 0, 0, 0], scalar_const ''int32'' [1, 0, 0, 0]],
      scalar_const ''bool'' [0], Tuple [], scalar_const ''int32'' [1, 0, 0, 0]]
   = Inr (Call ''nn.bias_add''
            [Call ''nn.conv2d'' [Var ''input'' NoType, Var ''weight'' (TensorType [8, 3, 5, 5])]
               (Conv2DAttrs \<lparr>conv_groups = 1, conv_data_layout = ''NCHW'',
                  conv_kernel_layout = ''OIHW'', conv_kernel_size = Some [5, 5],
                  conv_strides = [1, 1], conv_padding = [2, 2], conv_dilation = [1, 1]\<rparr>),
             Var ''bias'' NoType]
            (BiasAddAttrs 1))
   \<and> aten_convolution \<lparr>node_kind = ''aten::_convolution'', node_inputs = [], node_outputs = 1\<rparr>
     [Var ''input'' NoType, Var ''weight'' (TensorType [8, 3, 5, 5]),
      scalar_const ''uint64'' [54, 240, 188, 202, 222, 58, 250, 228],
      Tuple [scalar_const ''int32'' [1, 0, 0, 0], scalar_const ''int32'' [1, 0, 0, 0]],
      Tuple [scalar_const ''int32'' [0, 0, 0, 0], scalar_const ''int32'' [0, 0, 0, 0]],
      Tuple [scalar_const ''int32'' [1, 0, 0, 0], scalar_const ''int32'' [1, 0, 0, 0]],
      scalar_const ''bool'' [1], Tuple [], scalar_const ''int32'' [4, 0, 0, 0]]
   = Inr (Call ''nn.conv2d_transpose'' [Var ''input'' NoType, Var ''weight'' (TensorType [8, 3, 5, 5])]
            (Conv2DAttrs \<lparr>conv_groups = 4, conv_data_layout = ''NCHW'',
               conv_kernel_layout = ''OIHW'', conv_kernel_size = Some [5, 5],
               conv_strides = [1, 1], conv_padding = [0, 0], conv_dilation = [1, 1]\<rparr>))"
  (is "aten_convolution ?n ?a = Inr ?ea \<and> aten_convolution ?n ?b = Inr ?eb
       \<and> aten_convolution ?n ?c = Inr ?ec \<and> aten_convolution ?n ?d = Inr ?ed")
proof -
  have ra: "aten_convolution ?n ?a = Inr ?ea"
    by (rule aten_convolution_spec [of ?n ?a ?ea, THEN conjunct1, THEN iffD2])
      (auto simp: eval_defs)
  have rb: "aten_convolution ?n ?b = Inr ?eb"
    by (rule aten_convolution_spec [of ?n ?b ?eb, THEN conjunct1, THEN iffD2])
      (auto simp: eval_defs)
  have rc: "aten_convolution ?n ?c = Inr ?ec"
    by (rule aten_convolution_spec [of ?n ?c ?ec, THEN conjunct1, THEN iffD2])
      (auto simp: eval_defs)
  have rd: "aten_convolution ?n ?d = Inr ?ed"
    by (rule aten_convolution_spec [of ?n ?d ?ed, THEN conjunct1, THEN iffD2])
      (auto simp: eval_defs)
  from ra rb rc rd show ?thesis by simp
qed

section \<open>Pooling\<close>

text \<open>The pooling rules: when they return, and what.\<close>

lemma aten_avg_pool2d_Inr_iff:
  "aten_avg_pool2d n inputs = Inr e \<longleftrightarrow>
     6 \<le> length inputs
     \<and> (\<exists>pool_size strides padding ceil_mode count_include_pad.
          relayToArray (inputs ! 1) = Inr pool_size \<and> relayToArray (inputs ! 2) = Inr strides
          \<and> relayToArray (inputs ! 3) = Inr padding
          \<and> relayToConstant read_bool (inputs ! 4) = Inr ceil_mode
          \<and> relayToConstant read_bool (inputs ! 5) = Inr count_include_pad
          \<and> e = Call ''nn.avg_pool2d'' [inputs ! 0] (AvgPool2DAttrs
                \<lparr>avg_pool_size = pool_size,
                 avg_strides = (if strides = [] then pool_size else strides),
                 avg_padding = padding, avg_layout = ''NCHW'', avg_ceil_mode = ceil_mode,
                 avg_count_include_pad = count_include_pad\<rparr>))"
  (is "?l \<longleftrightarrow> ?r")
proof
  assume ?l
  then show ?r
    unfolding aten_avg_pool2d_def Let_def
    by (elim bindE_InrE array_at_InrE) auto
next
  assume ?r
  then show ?l
    by (auto simp: aten_avg_pool2d_def array_at_def Let_def)
qed

lemma aten_max_pool2d_Inr_iff:
  "aten_max_pool2d n inputs = Inr e \<longleftrightarrow>
     6 \<le> length inputs
     \<and> (\<exists>pool_size strides padding ceil_mode.
          relayToArray (inputs ! 1) = Inr pool_size \<and> relayToArray (inputs ! 2) = Inr strides
          \<and> relayToArray (inputs ! 3) = Inr padding
          \<and> relayToConstant read_bool (inputs ! 5) = Inr ceil_mode
          \<and> e = Call ''nn.max_pool2d'' [inputs ! 0] (MaxPool2DAttrs
                \<lparr>max_pool_size = pool_size,
                 max_strides = (if strides = [] then pool_size else strides),
                 max_padding = padding, max_layout = ''NCHW'', max_ceil_mode = ceil_mode\<rparr>))"
  (is "?l \<longleftrightarrow> ?r")
proof
  assume ?l
  then show ?r
    unfolding aten_max_pool2d_def Let_def
    by (elim bindE_InrE array_at_InrE) auto
next
  assume ?r
  then show ?l
    by (auto simp: aten_max_pool2d_def array_at_def Let_def)
qed

lemma aten_avg_pool2d_returns:
  "(\<exists>e. aten_avg_pool2d n inputs = Inr e) \<longleftrightarrow>
     6 \<le> length inputs
     \<and> int_tuple (inputs ! 1) \<and> int_tuple (inputs ! 2) \<and> int_tuple (inputs ! 3)
     \<and> scalar_with 1 (inputs ! 4) \<and> scalar_with 1 (inputs ! 5)"
  unfolding aten_avg_pool2d_Inr_iff relayToConstant_bool_ex [symmetric] relayToArray_ex [symmetric]
  by blast

lemma aten_max_pool2d_returns:
  "(\<exists>e. aten_max_pool2d n inputs = Inr e) \<longleftrightarrow>
     6 \<le> length inputs
     \<and> int_tuple (inputs ! 1) \<and> int_tuple (inputs ! 2) \<and> int_tuple (inputs ! 3)
     \<and> scalar_with 1 (inputs ! 5)"
  unfolding aten_max_pool2d_Inr_iff relayToConstant_bool_ex [symmetric] relayToArray_ex [symmetric]
  by blast

text \<open>
  C6. Each pooling rule returns exactly when it has six inputs, inputs 1, 2 and 3 are
  tuples of scalar \<^verbatim>\<open>int\<close> constants and the boolean inputs it reads are scalar
  constants; an empty stride tuple and a non-empty one are accepted alike. For both
  rules the strides attribute is then the decoded pool size if the decoded stride tuple
  is empty, and the decoded stride tuple itself otherwise.
\<close>

theorem pool2d_strides:
  "(aten_avg_pool2d n inputs = Inr e \<longleftrightarrow>
     6 \<le> length inputs
     \<and> (\<exists>pool_size strides padding ceil_mode count_include_pad.
          relayToArray (inputs ! 1) = Inr pool_size \<and> relayToArray (inputs ! 2) = Inr strides
          \<and> relayToArray (inputs ! 3) = Inr padding
          \<and> relayToConstant read_bool (inputs ! 4) = Inr ceil_mode
          \<and> relayToConstant read_bool (inputs ! 5) = Inr count_include_pad
          \<and> e = Call ''nn.avg_pool2d'' [inputs ! 0] (AvgPool2DAttrs
                \<lparr>avg_pool_size = pool_size,
                 avg_strides = (if strides = [] then pool_size else strides),
                 avg_padding = padding, avg_layout = ''NCHW'', avg_ceil_mode = ceil_mode,
                 avg_count_include_pad = count_include_pad\<rparr>)))
   \<and> (aten_max_pool2d n inputs = Inr e \<longleftrightarrow>
     6 \<le> length inputs
     \<and> (\<exists>pool_size strides padding ceil_mode.
          relayToArray (inputs ! 1) = Inr pool_size \<and> relayToArray (inputs ! 2) = Inr strides
          \<and> relayToArray (inputs ! 3) = Inr padding
          \<and> relayToConstant read_bool (inputs ! 5) = Inr ceil_mode
          \<and> e = Call ''nn.max_pool2d'' [inputs ! 0] (MaxPool2DAttrs
                \<lparr>max_pool_size = pool_size,
                 max_strides = (if strides = [] then pool_size else strides),
                 max_padding = padding, max_layout = ''NCHW'', max_ceil_mode = ceil_mode\<rparr>)))
   \<and> ((\<exists>e'. aten_avg_pool2d n inputs = Inr e') \<longleftrightarrow>
        6 \<le> length inputs
        \<and> int_tuple (inputs ! 1) \<and> int_tuple (inputs ! 2) \<and> int_tuple (inputs ! 3)
        \<and> scalar_with 1 (inputs ! 4) \<and> scalar_with 1 (inputs ! 5))
   \<and> ((\<exists>e'. aten_max_pool2d n inputs = Inr e') \<longleftrightarrow>
        6 \<le> length inputs
        \<and> int_tuple (inputs ! 1) \<and> int_tuple (inputs ! 2) \<and> int_tuple (inputs ! 3)
        \<and> scalar_with 1 (inputs ! 5))"
  using aten_avg_pool2d_Inr_iff [of n inputs e] aten_max_pool2d_Inr_iff [of n inputs e]
    aten_avg_pool2d_returns [of n inputs] aten_max_pool2d_returns [of n inputs]
  by (intro conjI)

theorem pool2d_strides_witness:
  "aten_avg_pool2d \<lparr>node_kind = ''aten::avg_pool2d'', node_inputs = [], node_outputs = 1\<rparr>
     [Var ''input'' NoType,
      Tuple [scalar_const ''int32'' [3, 0, 0, 0], scalar_const ''int32'' [3, 0, 0, 0]],
      Tuple [],
      Tuple [scalar_const ''int32'' [0, 0, 0, 0], scalar_const ''int32'' [0, 0, 0, 0]],
      scalar_const ''bool'' [0], scalar_const ''bool'' [1]]
   = Inr (Call ''nn.avg_pool2d'' [Var ''input'' NoType]
            (AvgPool2DAttrs \<lparr>avg_pool_size = [3, 3], avg_strides = [3, 3], avg_padding = [0, 0],
               avg_layout = ''NCHW'', avg_ceil_mode = False, avg_count_include_pad = True\<rparr>))
   \<and> aten_max_pool2d \<lparr>node_kind = ''aten::max_pool2d'', node_inputs = [], node_outputs = 1\<rparr>
     [Var ''input'' NoType,
      Tuple [scalar_const ''int32'' [3, 0, 0, 0], scalar_const ''int32'' [3, 0, 0, 0]],
      Tuple [scalar_const ''int32'' [2, 0, 0, 0], scalar_const ''int32'' [2, 0, 0, 0]],
      Tuple [scalar_const ''int32'' [0, 0, 0, 0], scalar_const ''int32'' [0, 0, 0, 0]],
      Tuple [scalar_const ''int32'' [1, 0, 0, 0], scalar_const ''int32'' [1, 0, 0, 0]],
      scalar_const ''bool'' [0]]
   = Inr (Call ''nn.max_pool2d'' [Var ''input'' NoType]
            (MaxPool2DAttrs \<lparr>max_pool_size = [3, 3], max_strides = [2, 2], max_padding = [0, 0],
               max_layout = ''NCHW'', max_ceil_mode = False\<rparr>))
   \<and> aten_avg_pool2d \<lparr>node_kind = ''aten::avg_pool2d'', node_inputs = [], node_outputs = 1\<rparr>
     [Var ''input'' NoType,
      Tuple [scalar_const ''int32'' [3, 0, 0, 0], scalar_const ''int32'' [3, 0, 0, 0]],
      Tuple [scalar_const ''int32'' [2, 0, 0, 0], scalar_const ''int32'' [2, 0, 0, 0]],
      Tuple [scalar_const ''int32'' [1, 0, 0, 0], scalar_const ''int32'' [1, 0, 0, 0]],
      scalar_const ''bool'' [1], scalar_const ''bool'' [0]]
   = Inr (Call ''nn.avg_pool2d'' [Var ''input'' NoType]
            (AvgPool2DAttrs \<lparr>avg_pool_size = [3, 3], avg_strides = [2, 2], avg_padding = [1, 1],
               avg_layout = ''NCHW'', avg_ceil_mode = True, avg_count_include_pad = False\<rparr>))
   \<and> aten_max_pool2d \<lparr>node_kind = ''aten::max_pool2d'', node_inputs = [], node_outputs = 1\<rparr>
     [Var ''input'' NoType,
      Tuple [scalar_const ''int32'' [3, 0, 0, 0], scalar_const ''int32'' [2, 0, 0, 0]],
      Tuple [],
      Tuple [scalar_const ''int32'' [1, 0, 0, 0], scalar_const ''int32'' [1, 0, 0, 0]],
      Tuple [scalar_const ''int32'' [1, 0, 0, 0], scalar_const ''int32'' [1, 0, 0, 0]],
      scalar_const ''bool'' [1]]
   = Inr (Call ''nn.max_pool2d'' [Var ''input'' NoType]
            (MaxPool2DAttrs \<lparr>max_pool_size = [3, 2], max_strides = [3, 2], max_padding = [1, 1],
               max_layout = ''NCHW'', max_ceil_mode = True\<rparr>))"
  (is "aten_avg_pool2d ?n ?a = Inr ?ea \<and> aten_max_pool2d ?m ?b = Inr ?eb
       \<and> aten_avg_pool2d ?n ?c = Inr ?ec \<and> aten_max_pool2d ?m ?d = Inr ?ed")
proof -
  have ra: "aten_avg_pool2d ?n ?a = Inr ?ea"
    by (rule pool2d_strides [of ?n ?a ?ea, THEN conjunct1, THEN iffD2])
      (auto simp: eval_defs)
  have rb: "aten_max_pool2d ?m ?b = Inr ?eb"
    by (rule pool2d_strides [of ?m ?b ?eb, THEN conjunct2, THEN conjunct1, THEN iffD2])
      (auto simp: eval_defs)
  have rc: "aten_avg_pool2d ?n ?c = Inr ?ec"
    by (rule pool2d_strides [of ?n ?c ?ec, THEN conjunct1, THEN iffD2])
      (auto simp: eval_defs)
  have rd: "aten_max_pool2d ?m ?d = Inr ?ed"
    by (rule pool2d_strides [of ?m ?d ?ed, THEN conjunct2, THEN conjunct1, THEN iffD2])
      (auto simp: eval_defs)
  from ra rb rc rd show ?thesis by simp
qed

section \<open>Batch normalisation\<close>

text \<open>What the batch-norm rule returns, when it returns.\<close>

lemma aten_batch_norm_InrD:
  "aten_batch_norm n inputs = Inr e \<Longrightarrow>
     \<exists>none1 none2 eps.
       relayIsNone (inputs ! 1) = Inr none1 \<and> relayIsNone (inputs ! 2) = Inr none2
       \<and> relayToConstant read_float (inputs ! 7) = Inr eps
       \<and> e = TupleGetItem
              (Call ''nn.batch_norm''
                 [inputs ! 0,
                  if none1 then Call ''broadcast_to_like'' [placeholder_const, inputs ! 3] NoAttrs
                  else inputs ! 1,
                  if none2 then Call ''broadcast_to_like'' [placeholder_const, inputs ! 3] NoAttrs
                  else inputs ! 2,
                  inputs ! 3, inputs ! 4]
                 (BatchNormAttrs \<lparr>bn_epsilon = eps, bn_axis = 1,
                    bn_scale = (\<not> none1), bn_center = (\<not> none2)\<rparr>)) 0"
  unfolding aten_batch_norm_def Let_def
  by (elim bindE_InrE array_at_InrE)
    (simp add: TORCH_INTERNAL_ASSERT_def TORCH_CHECK_def split: if_splits)

lemma aten_batch_norm_Inr_iff:
  "aten_batch_norm n inputs = Inr e \<longleftrightarrow>
     length inputs = 9 \<and> node_outputs n = 1
     \<and> relayToConstant read_bool (inputs ! 5) = Inr False
     \<and> (\<exists>none1 none2 eps.
          relayIsNone (inputs ! 1) = Inr none1 \<and> relayIsNone (inputs ! 2) = Inr none2
          \<and> relayToConstant read_float (inputs ! 7) = Inr eps
          \<and> e = TupleGetItem
              (Call ''nn.batch_norm''
                 [inputs ! 0,
                  if none1 then Call ''broadcast_to_like'' [placeholder_const, inputs ! 3] NoAttrs
                  else inputs ! 1,
                  if none2 then Call ''broadcast_to_like'' [placeholder_const, inputs ! 3] NoAttrs
                  else inputs ! 2,
                  inputs ! 3, inputs ! 4]
                 (BatchNormAttrs \<lparr>bn_epsilon = eps, bn_axis = 1,
                    bn_scale = (\<not> none1), bn_center = (\<not> none2)\<rparr>)) 0)"
  (is "?l \<longleftrightarrow> ?r")
proof
  assume ?l
  then show ?r
    unfolding aten_batch_norm_def Let_def
    by (elim bindE_InrE array_at_InrE)
      (simp add: TORCH_INTERNAL_ASSERT_def TORCH_CHECK_def split: if_splits)
next
  assume ?r
  then show ?l
    by (auto simp: aten_batch_norm_def array_at_def Let_def TORCH_INTERNAL_ASSERT_def
        TORCH_CHECK_def)
qed

lemma aten_batch_norm_returns:
  "(\<exists>e. aten_batch_norm n inputs = Inr e) \<longleftrightarrow>
     length inputs = 9 \<and> node_outputs n = 1
     \<and> relayToConstant read_bool (inputs ! 5) = Inr False \<and> scalar_with 4 (inputs ! 7)
     \<and> none_testable (inputs ! 1) \<and> none_testable (inputs ! 2)"
  unfolding aten_batch_norm_Inr_iff relayToConstant_float_ex [symmetric] relayIsNone_ex [symmetric]
  by blast

lemma placeholder_const_value:
  "relayToConstant read_float placeholder_const = Inr float_1337e10
   \<and> float32_val float_1337e10 = Finite 13370000408576"
  by (simp add: placeholder_const_def relayToConstant_def is_scalar_def TORCH_INTERNAL_ASSERT_def
      read_float_def float_1337e10_def float32_val_def bit_iff_odd)

text \<open>
  C4, as the code has it. The batch-norm rule returns exactly for nine inputs, a node
  with one output, a false training flag, a readable epsilon and sentinel tests that
  read inside their buffers, whatever mix of sentinel and real expressions inputs 1 and
  2 are. Then: if input 1 (the scale) is the none sentinel, the scale flag is false and
  the weight argument is the placeholder constant broadcast with \<open>broadcast_to_like\<close>
  to input 3 (the running mean, not input 0); otherwise the weight argument is input 1
  unchanged and the scale flag is true; and the same for input 2 (the shift), the bias
  argument and the center flag. The placeholder is a scalar \<^verbatim>\<open>float32\<close> constant
  holding 13370000408576, the single nearest to \<^verbatim>\<open>1337e10\<close>.
\<close>

theorem aten_batch_norm_placeholder:
  "(aten_batch_norm n inputs = Inr e \<longleftrightarrow>
     length inputs = 9 \<and> node_outputs n = 1
     \<and> relayToConstant read_bool (inputs ! 5) = Inr False
     \<and> (\<exists>none1 none2 eps.
          relayIsNone (inputs ! 1) = Inr none1 \<and> relayIsNone (inputs ! 2) = Inr none2
          \<and> relayToConstant read_float (inputs ! 7) = Inr eps
          \<and> e = TupleGetItem
              (Call ''nn.batch_norm''
                 [inputs ! 0,
                  if none1 then Call ''broadcast_to_like'' [placeholder_const, inputs ! 3] NoAttrs
                  else inputs ! 1,
                  if none2 then Call ''broadcast_to_like'' [placeholder_const, inputs ! 3] NoAttrs
                  else inputs ! 2,
                  inputs ! 3, inputs ! 4]
                 (BatchNormAttrs \<lparr>bn_epsilon = eps, bn_axis = 1,
                    bn_scale = (\<not> none1), bn_center = (\<not> none2)\<rparr>)) 0))
   \<and> ((\<exists>e'. aten_batch_norm n inputs = Inr e') \<longleftrightarrow>
        length inputs = 9 \<and> node_outputs n = 1
        \<and> relayToConstant read_bool (inputs ! 5) = Inr False \<and> scalar_with 4 (inputs ! 7)
        \<and> none_testable (inputs ! 1) \<and> none_testable (inputs ! 2))
   \<and> relayToConstant read_float placeholder_const = Inr float_1337e10
   \<and> float32_val float_1337e10 = Finite 13370000408576
   \<and> \<bar>13370000408576 - 1337 * 10 ^ 10\<bar> \<le> (2 ^ 19 :: int)"
proof -
  have "\<bar>13370000408576 - 1337 * 10 ^ 10\<bar> \<le> (2 ^ 19 :: int)" by simp
  with aten_batch_norm_Inr_iff [of n inputs e] aten_batch_norm_returns [of n inputs]
    placeholder_const_value
  show ?thesis by (intro conjI) blast+
qed

theorem aten_batch_norm_placeholder_witness:
  "aten_batch_norm \<lparr>node_kind = ''aten::batch_norm'', node_inputs = [], node_outputs = 1\<rparr>
     [Var ''input'' NoType, Var ''weight'' NoType,
      scalar_const ''uint64'' [54, 240, 188, 202, 222, 58, 250, 228],
      Var ''running_mean'' NoType, Var ''running_var'' NoType,
      scalar_const ''bool'' [0], scalar_const ''float32'' [205, 204, 204, 61],
      scalar_const ''float32'' [172, 197, 39, 55], scalar_const ''bool'' [1]]
   = Inr (TupleGetItem
       (Call ''nn.batch_norm''
          [Var ''input'' NoType, Var ''weight'' NoType,
           Call ''broadcast_to_like'' [placeholder_const, Var ''running_mean'' NoType] NoAttrs,
           Var ''running_mean'' NoType, Var ''running_var'' NoType]
          (BatchNormAttrs \<lparr>bn_epsilon = 0x3727C5AC, bn_axis = 1,
             bn_scale = True, bn_center = False\<rparr>)) 0)
   \<and> aten_batch_norm \<lparr>node_kind = ''aten::batch_norm'', node_inputs = [], node_outputs = 1\<rparr>
     [Var ''input'' NoType,
      scalar_const ''uint64'' [54, 240, 188, 202, 222, 58, 250, 228], Var ''bias'' NoType,
      Var ''running_mean'' NoType, Var ''running_var'' NoType,
      scalar_const ''bool'' [0], scalar_const ''float32'' [205, 204, 204, 61],
      scalar_const ''float32'' [172, 197, 39, 55], scalar_const ''bool'' [1]]
   = Inr (TupleGetItem
       (Call ''nn.batch_norm''
          [Var ''input'' NoType,
           Call ''broadcast_to_like'' [placeholder_const, Var ''running_mean'' NoType] NoAttrs,
           Var ''bias'' NoType,
           Var ''running_mean'' NoType, Var ''running_var'' NoType]
          (BatchNormAttrs \<lparr>bn_epsilon = 0x3727C5AC, bn_axis = 1,
             bn_scale = False, bn_center = True\<rparr>)) 0)
   \<and> aten_batch_norm \<lparr>node_kind = ''aten::batch_norm'', node_inputs = [], node_outputs = 1\<rparr>
     [Var ''input'' NoType, Var ''weight'' NoType, Var ''bias'' NoType,
      Var ''running_mean'' NoType, Var ''running_var'' NoType,
      scalar_const ''bool'' [0], scalar_const ''float32'' [205, 204, 204, 61],
      scalar_const ''float32'' [172, 197, 39, 55], scalar_const ''bool'' [1]]
   = Inr (TupleGetItem
       (Call ''nn.batch_norm''
          [Var ''input'' NoType, Var ''weight'' NoType, Var ''bias'' NoType,
           Var ''running_mean'' NoType, Var ''running_var'' NoType]
          (BatchNormAttrs \<lparr>bn_epsilon = 0x3727C5AC, bn_axis = 1,
             bn_scale = True, bn_center = True\<rparr>)) 0)
   \<and> aten_batch_norm \<lparr>node_kind = ''aten::batch_norm'', node_inputs = [], node_outputs = 1\<rparr>
     [Var ''input'' NoType,
      scalar_const ''uint64'' [54, 240, 188, 202, 222, 58, 250, 228],
      scalar_const ''uint64'' [54, 240, 188, 202, 222, 58, 250, 228],
      Var ''running_mean'' NoType, Var ''running_var'' NoType,
      scalar_const ''bool'' [0], scalar_const ''float32'' [205, 204, 204, 61],
      scalar_const ''float32'' [10, 215, 35, 60], scalar_const ''bool'' [1]]
   = Inr (TupleGetItem
       (Call ''nn.batch_norm''
          [Var ''input'' NoType,
           Call ''broadcast_to_like'' [placeholder_const, Var ''running_mean'' NoType] NoAttrs,
           Call ''broadcast_to_like'' [placeholder_const, Var ''running_mean'' NoType] NoAttrs,
           Var ''running_mean'' NoType, Var ''running_var'' NoType]
          (BatchNormAttrs \<lparr>bn_epsilon = 0x3C23D70A, bn_axis = 1,
             bn_scale = False, bn_center = False\<rparr>)) 0)
   \<and> float32_val float_1337e10 = Finite 13370000408576"
  (is "aten_batch_norm ?n ?a = Inr ?ea \<and> aten_batch_norm ?n ?b = Inr ?eb
       \<and> aten_batch_norm ?n ?c = Inr ?ec \<and> aten_batch_norm ?n ?d = Inr ?ed \<and> _")
proof -
  have ra: "aten_batch_norm ?n ?a = Inr ?ea"
    by (rule aten_batch_norm_placeholder [of ?n ?a ?ea, THEN conjunct1, THEN iffD2])
      (auto simp: eval_defs)
  have rb: "aten_batch_norm ?n ?b = Inr ?eb"
    by (rule aten_batch_norm_placeholder [of ?n ?b ?eb, THEN conjunct1, THEN iffD2])
      (auto simp: eval_defs)
  have rc: "aten_batch_norm ?n ?c = Inr ?ec"
    by (rule aten_batch_norm_placeholder [of ?n ?c ?ec, THEN conjunct1, THEN iffD2])
      (auto simp: eval_defs)
  have rd: "aten_batch_norm ?n ?d = Inr ?ed"
    by (rule aten_batch_norm_placeholder [of ?n ?d ?ed, THEN conjunct1, THEN iffD2])
      (auto simp: eval_defs)
  from ra rb rc rd aten_batch_norm_placeholder [of ?n ?a ?ea] show ?thesis by simp
qed

text \<open>
  The placeholder is broadcast to the shape of input 3: with distinct expressions at
  inputs 0 and 3, the weight and bias arguments name input 3, and differ from a
  broadcast to input 0.
\<close>

theorem aten_batch_norm_broadcast_target:
  "aten_batch_norm \<lparr>node_kind = ''aten::batch_norm'', node_inputs = [], node_outputs = 1\<rparr>
     [Var ''input'' NoType,
      scalar_const ''uint64'' [54, 240, 188, 202, 222, 58, 250, 228],
      scalar_const ''uint64'' [54, 240, 188, 202, 222, 58, 250, 228],
      Var ''running_mean'' NoType, Var ''running_var'' NoType,
      scalar_const ''bool'' [0], scalar_const ''float32'' [205, 204, 204, 61],
      scalar_const ''float32'' [172, 197, 39, 55], scalar_const ''bool'' [1]]
   = Inr (TupleGetItem
       (Call ''nn.batch_norm''
          [Var ''input'' NoType,
           Call ''broadcast_to_like'' [placeholder_const, Var ''running_mean'' NoType] NoAttrs,
           Call ''broadcast_to_like'' [placeholder_const, Var ''running_mean'' NoType] NoAttrs,
           Var ''running_mean'' NoType, Var ''running_var'' NoType]
          (BatchNormAttrs \<lparr>bn_epsilon = 0x3727C5AC, bn_axis = 1,
             bn_scale = False, bn_center = False\<rparr>)) 0)
   \<and> Call ''broadcast_to_like'' [placeholder_const, Var ''running_mean'' NoType] NoAttrs
       \<noteq> Call ''broadcast_to_like'' [placeholder_const, Var ''input'' NoType] NoAttrs"
  by (simp add: aten_batch_norm_def eval_defs)

text \<open>
  C9. With nine inputs and a true training flag at index 5 the rule fails (a reported
  error). A node whose number of outputs is not one never gets a result, and fails the
  assertion whenever the same inputs succeed for a one-output node. Every result is the
  projection at index 0 of the \<open>nn.batch_norm\<close> call, so the branch that returns the
  call itself for two outputs is never taken.
\<close>

theorem aten_batch_norm_checks:
  "(length inputs = 9 \<and> relayToConstant read_bool (inputs ! 5) = Inr True \<longrightarrow>
      aten_batch_norm n inputs = Inl (CheckError ''batch_norm is in training mode''))
   \<and> (node_outputs n \<noteq> 1 \<longrightarrow> (\<forall>e'. aten_batch_norm n inputs \<noteq> Inr e'))
   \<and> (node_outputs n \<noteq> 1 \<and> (\<exists>e'. aten_batch_norm (n\<lparr>node_outputs := 1\<rparr>) inputs = Inr e') \<longrightarrow>
      aten_batch_norm n inputs = Inl InternalAssert)
   \<and> (aten_batch_norm n inputs = Inr e \<longrightarrow>
      node_outputs n = 1 \<and> (\<exists>args a. e = TupleGetItem (Call ''nn.batch_norm'' args a) 0))"
proof (intro conjI impI allI)
  assume "length inputs = 9 \<and> relayToConstant read_bool (inputs ! 5) = Inr True"
  then show "aten_batch_norm n inputs = Inl (CheckError ''batch_norm is in training mode'')"
    by (simp add: aten_batch_norm_def TORCH_CHECK_def array_at_def)
next
  fix e' assume "node_outputs n \<noteq> 1"
  then show "aten_batch_norm n inputs \<noteq> Inr e'"
    unfolding aten_batch_norm_def Let_def
    by (auto elim!: bindE_InrE simp: TORCH_INTERNAL_ASSERT_def split: if_splits)
next
  assume a: "node_outputs n \<noteq> 1 \<and> (\<exists>e'. aten_batch_norm (n\<lparr>node_outputs := 1\<rparr>) inputs = Inr e')"
  then obtain e' where "aten_batch_norm (n\<lparr>node_outputs := 1\<rparr>) inputs = Inr e'" by blast
  then show "aten_batch_norm n inputs = Inl InternalAssert"
    unfolding aten_batch_norm_def Let_def
    using a by (elim bindE_InrE) (simp add: TORCH_INTERNAL_ASSERT_def)
next
  assume r: "aten_batch_norm n inputs = Inr e"
  then show "node_outputs n = 1"
    unfolding aten_batch_norm_def Let_def
    by (elim bindE_InrE) (simp add: TORCH_INTERNAL_ASSERT_def split: if_splits)
next
  assume r: "aten_batch_norm n inputs = Inr e"
  from aten_batch_norm_InrD [OF r]
  show "\<exists>args a. e = TupleGetItem (Call ''nn.batch_norm'' args a) 0"
    by blast
qed

theorem aten_batch_norm_checks_witness:
  "aten_batch_norm \<lparr>node_kind = ''aten::batch_norm'', node_inputs = [], node_outputs = 1\<rparr>
     [Var ''input'' NoType, Var ''weight'' NoType, Var ''bias'' NoType,
      Var ''running_mean'' NoType, Var ''running_var'' NoType,
      scalar_const ''bool'' [1], scalar_const ''float32'' [205, 204, 204, 61],
      scalar_const ''float32'' [172, 197, 39, 55], scalar_const ''bool'' [1]]
   = Inl (CheckError ''batch_norm is in training mode'')
   \<and> aten_batch_norm \<lparr>node_kind = ''aten::batch_norm'', node_inputs = [], node_outputs = 2\<rparr>
     [Var ''input'' NoType, Var ''weight'' NoType, Var ''bias'' NoType,
      Var ''running_mean'' NoType, Var ''running_var'' NoType,
      scalar_const ''bool'' [0], scalar_const ''float32'' [205, 204, 204, 61],
      scalar_const ''float32'' [172, 197, 39, 55], scalar_const ''bool'' [1]]
   = Inl InternalAssert
   \<and> aten_batch_norm \<lparr>node_kind = ''aten::batch_norm'', node_inputs = [], node_outputs = 1\<rparr>
     [Var ''input'' NoType, Var ''weight'' NoType, Var ''bias'' NoType,
      Var ''running_mean'' NoType, Var ''running_var'' NoType,
      scalar_const ''bool'' [0], scalar_const ''float32'' [205, 204, 204, 61],
      scalar_const ''float32'' [172, 197, 39, 55], scalar_const ''bool'' [1]]
   = Inr (TupleGetItem
       (Call ''nn.batch_norm''
          [Var ''input'' NoType, Var ''weight'' NoType, Var ''bias'' NoType,
           Var ''running_mean'' NoType, Var ''running_var'' NoType]
          (BatchNormAttrs \<lparr>bn_epsilon = 0x3727C5AC, bn_axis = 1,
             bn_scale = True, bn_center = True\<rparr>)) 0)"
  (is "aten_batch_norm ?n1 ?tr = Inl ?ce \<and> aten_batch_norm ?n2 ?a = Inl InternalAssert
       \<and> aten_batch_norm ?n1 ?a = Inr ?e")
proof -
  have h1: "length ?tr = 9 \<and> relayToConstant read_bool (?tr ! 5) = Inr True"
    by (simp add: eval_defs)
  have r: "aten_batch_norm ?n1 ?a = Inr ?e"
    by (simp add: aten_batch_norm_def eval_defs)
  have h2: "node_outputs ?n2 \<noteq> 1 \<and> (\<exists>e'. aten_batch_norm (?n2\<lparr>node_outputs := 1\<rparr>) ?a = Inr e')"
    using r by simp
  from aten_batch_norm_checks [of ?tr ?n1 ?e] h1
  have "aten_batch_norm ?n1 ?tr = Inl ?ce" by blast
  moreover from aten_batch_norm_checks [of ?a ?n2 ?e] h2
  have "aten_batch_norm ?n2 ?a = Inl InternalAssert" by blast
  ultimately show ?thesis using r by simp
qed

section \<open>Threshold\<close>

text \<open>
  Comparing a single with the \<^verbatim>\<open>double\<close> literal \<^verbatim>\<open>1e-7\<close> is comparing it with
  \<open>10^-7\<close>: the literal lies below \<open>10^-7\<close>, and no single lies from the literal up
  to \<open>10^-7\<close>, since singles of that size are multiples of \<open>2^-47\<close>.
\<close>

lemma double_1e_7_below: "double_1e_7 < 1 / 10 ^ 7" and double_1e_7_pos: "0 < double_1e_7"
  by (simp_all add: double_1e_7_def field_simps)

lemma float32_val_finite:
  assumes "float32_val w = Finite q"
  shows "(\<exists>m. m < 2 ^ 23 \<and> \<bar>q\<bar> = of_nat m / 2 ^ 149)
       \<or> (\<exists>M e. 2 ^ 23 \<le> M \<and> M < 2 ^ 24 \<and> 1 \<le> e \<and> \<bar>q\<bar> = of_nat M * 2 ^ e / 2 ^ 150)"
proof -
  define m where "m = unat (w AND 0x7FFFFF)"
  define e where "e = unat (drop_bit 23 w AND 0xFF)"
  define sg :: rat where "sg = (if bit w 31 then - 1 else 1)"
  have "unat (w AND 0x7FFFFF) \<le> unat (0x7FFFFF :: 32 word)"
    by (rule word_and_le1 [THEN word_le_nat_alt [THEN iffD1]])
  then have m: "m < 2 ^ 23" by (simp add: m_def)
  have sg: "\<bar>sg\<bar> = 1" by (simp add: sg_def)
  have unf: "float32_val w =
      (if e = 255 then (if m = 0 then (if bit w 31 then NegInf else PosInf) else NaN)
       else if e = 0 then Finite (sg * of_nat m / 2 ^ 149)
       else Finite (sg * of_nat (2 ^ 23 + m) * 2 ^ e / 2 ^ 150))"
    unfolding float32_val_def Let_def m_def e_def sg_def ..
  show ?thesis
  proof (cases "e = 0")
    case True
    with unf have "float32_val w = Finite (sg * of_nat m / 2 ^ 149)" by simp
    with assms have "q = sg * of_nat m / 2 ^ 149" by (simp only: fval.inject)
    then have "q = sg * (of_nat m / 2 ^ 149)"
      by (simp only: times_divide_eq_right)
    then have "\<bar>q\<bar> = \<bar>sg\<bar> * \<bar>of_nat m / 2 ^ 149 :: rat\<bar>"
      by (simp only: abs_mult)
    also have "\<dots> = of_nat m / 2 ^ 149"
      unfolding sg by simp
    finally show ?thesis using m by blast
  next
    case False
    from assms unf have e255: "e \<noteq> 255" by (auto split: if_splits)
    with unf False have "float32_val w = Finite (sg * of_nat (2 ^ 23 + m) * 2 ^ e / 2 ^ 150)"
      by simp
    with assms have "q = sg * of_nat (2 ^ 23 + m) * 2 ^ e / 2 ^ 150"
      by (simp only: fval.inject)
    then have "q = sg * (of_nat (2 ^ 23 + m) * 2 ^ e / 2 ^ 150)"
      by (simp only: times_divide_eq_right mult.assoc)
    then have "\<bar>q\<bar> = \<bar>sg\<bar> * \<bar>of_nat (2 ^ 23 + m) * 2 ^ e / 2 ^ 150 :: rat\<bar>"
      by (simp only: abs_mult)
    also have "\<dots> = of_nat (2 ^ 23 + m) * 2 ^ e / 2 ^ 150"
      unfolding sg by (simp del: of_nat_add of_nat_power)
    finally have "\<bar>q\<bar> = of_nat (2 ^ 23 + m) * 2 ^ e / 2 ^ 150" .
    moreover have "2 ^ 23 \<le> 2 ^ 23 + m" "2 ^ 23 + m < 2 ^ 24" using m by simp_all
    moreover have "1 \<le> e" using False by simp
    ultimately show ?thesis by blast
  qed
qed

lemma no_single_between:
  fixes a :: rat
  assumes a: "a = of_nat M * 2 ^ e / 2 ^ 150" and M: "M < 2 ^ 24"
    and lo: "double_1e_7 \<le> a" and hi: "a < 1 / 10 ^ 7"
  shows False
proof (cases "e \<le> 102")
  case True
  then have le: "(2::nat) ^ e \<le> 2 ^ 102" by (rule power_increasing) simp
  have "M * 2 ^ e < 2 ^ 24 * 2 ^ 102"
    by (rule mult_less_le_imp_less) (use M le in simp_all)
  then have "M * 2 ^ e < 2 ^ 126" by simp
  then have "(of_nat (M * 2 ^ e) :: rat) < of_nat (2 ^ 126)"
    by (simp only: of_nat_less_iff)
  then have "a < 2 ^ 126 / 2 ^ 150"
    by (simp add: a divide_strict_right_mono)
  with lo show False by (simp add: double_1e_7_def)
next
  case False
  define j where "j = e - 103"
  define K where "K = M * 2 ^ j"
  from False have e: "e = 103 + j" by (simp add: j_def)
  have aK: "a = of_nat K / 2 ^ 47"
    by (simp add: a e K_def power_add)
  from lo have "(944473296573929 :: rat) \<le> of_nat K * 2 ^ 26"
    by (simp add: aK double_1e_7_def field_simps)
  then have "(of_nat 944473296573929 :: rat) \<le> of_nat (K * 2 ^ 26)"
    by simp
  then have k1: "944473296573929 \<le> K * 2 ^ 26"
    by (simp only: of_nat_le_iff)
  from hi have "(of_nat K :: rat) * 10 ^ 7 < 2 ^ 47"
    by (simp add: aK field_simps)
  then have "(of_nat (K * 10 ^ 7) :: rat) < of_nat (2 ^ 47)"
    by simp
  then have k2: "K * 10 ^ 7 < 2 ^ 47"
    by (simp only: of_nat_less_iff)
  from k1 k2 show False by simp
qed

lemma single_less_1e_7:
  assumes "float32_val w = Finite q"
  shows "\<bar>q\<bar> < double_1e_7 \<longleftrightarrow> \<bar>q\<bar> < 1 / 10 ^ 7"
proof
  assume "\<bar>q\<bar> < double_1e_7"
  then show "\<bar>q\<bar> < 1 / 10 ^ 7" using double_1e_7_below by (rule less_trans)
next
  assume hi: "\<bar>q\<bar> < 1 / 10 ^ 7"
  show "\<bar>q\<bar> < double_1e_7"
  proof (rule ccontr)
    assume "\<not> \<bar>q\<bar> < double_1e_7"
    then have lo: "double_1e_7 \<le> \<bar>q\<bar>" by simp
    from float32_val_finite [OF assms] show False
    proof (elim disjE exE conjE)
      fix m :: nat assume m: "m < 2 ^ 23" and q: "\<bar>q\<bar> = of_nat m / 2 ^ 149"
      from m have "(of_nat m :: rat) < of_nat (2 ^ 23)" by (simp only: of_nat_less_iff)
      then have "\<bar>q\<bar> < 2 ^ 23 / 2 ^ 149" by (simp add: q divide_strict_right_mono)
      with lo show False by (simp add: double_1e_7_def)
    next
      fix M e :: nat assume M: "M < 2 ^ 24" and q: "\<bar>q\<bar> = of_nat M * 2 ^ e / 2 ^ 150"
      from q M lo hi show False by (rule no_single_between)
    qed
  qed
qed

lemma threshold_range_iff:
  "fless (float32_val d) double_1e_7 \<and> fgreater (float32_val d) (- double_1e_7)
     \<longleftrightarrow> strictly_within_1e_7 d"
proof (cases "float32_val d")
  case (Finite q)
  have "q < double_1e_7 \<and> - double_1e_7 < q \<longleftrightarrow> \<bar>q\<bar> < double_1e_7"
    by (auto simp: abs_less_iff)
  also have "\<dots> \<longleftrightarrow> \<bar>q\<bar> < 1 / 10 ^ 7"
    by (rule single_less_1e_7 [OF Finite])
  also have "\<dots> \<longleftrightarrow> - (1 / 10 ^ 7) < q \<and> q < 1 / 10 ^ 7"
    by (auto simp: abs_less_iff)
  finally show ?thesis
    by (simp add: Finite fless_def fgreater_def strictly_within_1e_7_def)
qed (simp_all add: fless_def fgreater_def strictly_within_1e_7_def)

lemma TORCH_CHECK_Inr_iff: "TORCH_CHECK b msg = Inr u \<longleftrightarrow> b"
  by (simp add: TORCH_CHECK_def)

lemma aten_threshold_InrD:
  assumes "aten_threshold_inplace n inputs = Inr e"
  shows "3 \<le> length inputs"
    and "relayIsNone (inputs ! 0) = Inr False"
    and "relayIsNone (inputs ! 1) = Inr False"
    and "relayIsNone (inputs ! 2) = Inr False"
    and "\<exists>t. relayToConstant read_float (inputs ! 1) = Inr t \<and> strictly_within_1e_7 t"
    and "\<exists>v. relayToConstant read_float (inputs ! 2) = Inr v \<and> strictly_within_1e_7 v"
    and "e = Call ''nn.relu'' [inputs ! 0] NoAttrs"
  using assms unfolding aten_threshold_inplace_def
  by (elim bindE_InrE array_at_InrE;
      simp add: TORCH_CHECK_Inr_iff threshold_range_iff [symmetric])+

lemma aten_threshold_InrI:
  assumes "3 \<le> length inputs"
    and "relayIsNone (inputs ! 0) = Inr False"
    and "relayIsNone (inputs ! 1) = Inr False"
    and "relayIsNone (inputs ! 2) = Inr False"
    and "relayToConstant read_float (inputs ! 1) = Inr t" and "strictly_within_1e_7 t"
    and "relayToConstant read_float (inputs ! 2) = Inr v" and "strictly_within_1e_7 v"
  shows "aten_threshold_inplace n inputs = Inr (Call ''nn.relu'' [inputs ! 0] NoAttrs)"
  using assms
  by (auto simp: aten_threshold_inplace_def array_at_def TORCH_CHECK_def
      threshold_range_iff [symmetric])

lemma aten_threshold_reported:
  assumes "3 \<le> length inputs"
    and "relayIsNone (inputs ! 0) = Inr b0"
    and "relayIsNone (inputs ! 1) = Inr b1"
    and "relayIsNone (inputs ! 2) = Inr b2"
    and "relayToConstant read_float (inputs ! 1) = Inr t"
    and "relayToConstant read_float (inputs ! 2) = Inr v"
  shows "(\<exists>e. aten_threshold_inplace n inputs = Inr e)
       \<or> (\<exists>msg. aten_threshold_inplace n inputs = Inl (CheckError msg))"
  using assms
  by (auto simp: aten_threshold_inplace_def array_at_def TORCH_CHECK_def)

text \<open>
  What the threshold rule does with the bytes it reads. It returns exactly when there
  are three inputs, \<open>relayIsNone\<close> answers false for each of them, and inputs 1 and 2
  are scalar constants whose first four bytes, read as a single, lie strictly between
  \<open>-10^-7\<close> and \<open>10^-7\<close>; the result is then \<open>nn.relu\<close> of input 0. When the three
  sentinel tests have an answer and inputs 1 and 2 are scalar constants, every other
  outcome is a reported error (a failed \<^verbatim>\<open>TORCH_CHECK\<close>), not a failed assertion.
\<close>

theorem aten_threshold_spec:
  "(aten_threshold_inplace n inputs = Inr e \<longleftrightarrow>
      3 \<le> length inputs
      \<and> relayIsNone (inputs ! 0) = Inr False
      \<and> relayIsNone (inputs ! 1) = Inr False
      \<and> relayIsNone (inputs ! 2) = Inr False
      \<and> (\<exists>t. relayToConstant read_float (inputs ! 1) = Inr t \<and> strictly_within_1e_7 t)
      \<and> (\<exists>v. relayToConstant read_float (inputs ! 2) = Inr v \<and> strictly_within_1e_7 v)
      \<and> e = Call ''nn.relu'' [inputs ! 0] NoAttrs)
   \<and> (3 \<le> length inputs
       \<and> (\<exists>b0 b1 b2. relayIsNone (inputs ! 0) = Inr b0 \<and> relayIsNone (inputs ! 1) = Inr b1
             \<and> relayIsNone (inputs ! 2) = Inr b2)
       \<and> (\<exists>t v. relayToConstant read_float (inputs ! 1) = Inr t
             \<and> relayToConstant read_float (inputs ! 2) = Inr v)
       \<and> (\<forall>e'. aten_threshold_inplace n inputs \<noteq> Inr e')
       \<longrightarrow> (\<exists>msg. aten_threshold_inplace n inputs = Inl (CheckError msg)))"
proof (intro conjI impI)
  show "aten_threshold_inplace n inputs = Inr e \<longleftrightarrow>
      3 \<le> length inputs
      \<and> relayIsNone (inputs ! 0) = Inr False
      \<and> relayIsNone (inputs ! 1) = Inr False
      \<and> relayIsNone (inputs ! 2) = Inr False
      \<and> (\<exists>t. relayToConstant read_float (inputs ! 1) = Inr t \<and> strictly_within_1e_7 t)
      \<and> (\<exists>v. relayToConstant read_float (inputs ! 2) = Inr v \<and> strictly_within_1e_7 v)
      \<and> e = Call ''nn.relu'' [inputs ! 0] NoAttrs"
    using aten_threshold_InrD [of n inputs e] aten_threshold_InrI [of inputs _ _ n]
    by blast
next
  assume "3 \<le> length inputs
       \<and> (\<exists>b0 b1 b2. relayIsNone (inputs ! 0) = Inr b0 \<and> relayIsNone (inputs ! 1) = Inr b1
             \<and> relayIsNone (inputs ! 2) = Inr b2)
       \<and> (\<exists>t v. relayToConstant read_float (inputs ! 1) = Inr t
             \<and> relayToConstant read_float (inputs ! 2) = Inr v)
       \<and> (\<forall>e'. aten_threshold_inplace n inputs \<noteq> Inr e')"
  then show "\<exists>msg. aten_threshold_inplace n inputs = Inl (CheckError msg)"
    using aten_threshold_reported [of inputs _ _ _ _ _ n] by blast
qed

theorem aten_threshold_spec_witness:
  "aten_threshold_inplace \<lparr>node_kind = ''aten::threshold_'', node_inputs = [], node_outputs = 1\<rparr>
     [Var ''x'' NoType, scalar_const ''float32'' [0, 0, 0, 0, 0, 0, 0, 0],
      scalar_const ''float32'' [0, 0, 0, 0, 0, 0, 0, 0]]
   = Inr (Call ''nn.relu'' [Var ''x'' NoType] NoAttrs)
   \<and> (\<exists>msg. aten_threshold_inplace
         \<lparr>node_kind = ''aten::threshold_'', node_inputs = [], node_outputs = 1\<rparr>
         [Var ''x'' NoType, scalar_const ''float32'' [0, 0, 0, 0x3F, 0, 0, 0, 0],
          scalar_const ''float32'' [0, 0, 0, 0, 0, 0, 0, 0]]
       = Inl (CheckError msg))
   \<and> float32_val 0x3F000000 = Finite (1 / 2)"
proof -
  let ?n = "\<lparr>node_kind = ''aten::threshold_'', node_inputs = [], node_outputs = 1\<rparr>"
  let ?z = "scalar_const ''float32'' [0, 0, 0, 0, 0, 0, 0, 0]"
  let ?h = "scalar_const ''float32'' [0, 0, 0, 0x3F, 0, 0, 0, 0]"
  let ?a = "[Var ''x'' NoType, ?z, ?z]"
  let ?b = "[Var ''x'' NoType, ?h, ?z]"
  have z: "relayToConstant read_float ?z = Inr 0" "relayIsNone ?z = Inr False"
    by (simp_all add: eval_defs)
  have h: "relayToConstant read_float ?h = Inr 0x3F000000" "relayIsNone ?h = Inr False"
    by (simp_all add: eval_defs)
  have x: "relayIsNone (Var ''x'' NoType) = Inr False"
    by (simp add: eval_defs)
  have w0: "strictly_within_1e_7 0"
    by (simp add: strictly_within_1e_7_def float32_val_def)
  have half: "float32_val 0x3F000000 = Finite (1 / 2)"
    by (simp add: float32_val_def bit_iff_odd)
  then have wh: "\<not> strictly_within_1e_7 0x3F000000"
    by (simp add: strictly_within_1e_7_def)
  have "aten_threshold_inplace ?n ?a = Inr (Call ''nn.relu'' [Var ''x'' NoType] NoAttrs)"
    using aten_threshold_spec [of ?n ?a "Call ''nn.relu'' [Var ''x'' NoType] NoAttrs"] z x w0
    by simp
  moreover have "\<exists>msg. aten_threshold_inplace ?n ?b = Inl (CheckError msg)"
  proof -
    have ne: "aten_threshold_inplace ?n ?b \<noteq> Inr e'" for e'
      using aten_threshold_spec [of ?n ?b e'] h wh by simp
    have "3 \<le> length ?b
       \<and> (\<exists>b0 b1 b2. relayIsNone (?b ! 0) = Inr b0 \<and> relayIsNone (?b ! 1) = Inr b1
             \<and> relayIsNone (?b ! 2) = Inr b2)
       \<and> (\<exists>t v. relayToConstant read_float (?b ! 1) = Inr t
             \<and> relayToConstant read_float (?b ! 2) = Inr v)
       \<and> (\<forall>e'. aten_threshold_inplace ?n ?b \<noteq> Inr e')"
      using z h x ne by auto
    then show ?thesis
      by (rule aten_threshold_spec [of ?n ?b NullExpr, THEN conjunct2, THEN mp])
  qed
  ultimately show ?thesis using half by simp
qed

lemma aten_threshold_returns:
  "(\<exists>e. aten_threshold_inplace n inputs = Inr e) \<longleftrightarrow>
     3 \<le> length inputs
     \<and> relayIsNone (inputs ! 0) = Inr False \<and> relayIsNone (inputs ! 1) = Inr False
     \<and> relayIsNone (inputs ! 2) = Inr False
     \<and> (case relayToConstant read_float (inputs ! 1) of
           Inr t \<Rightarrow> strictly_within_1e_7 t | Inl _ \<Rightarrow> False)
     \<and> (case relayToConstant read_float (inputs ! 2) of
           Inr v \<Rightarrow> strictly_within_1e_7 v | Inl _ \<Rightarrow> False)"
  (is "?l \<longleftrightarrow> ?r")
proof
  assume ?l
  then obtain e where "aten_threshold_inplace n inputs = Inr e" ..
  from aten_threshold_InrD [OF this] show ?r by auto
next
  assume ?r
  then show ?l
    using aten_threshold_InrI [of inputs _ _ n]
    by (auto split: sum.splits)
qed

text \<open>
  C8 at integer constants. The rule reads the threshold with
  \<^verbatim>\<open>relayToConstant<float>\<close> whatever the element type of the constant: the integer
  1 has the bytes of the single \<open>2^-149\<close>, which passes both range checks, so a
  threshold of 1 with value 0 is translated to \<open>nn.relu\<close> instead of being rejected
  with the reported error "only supported for threshold 0".
\<close>

theorem aten_threshold_integer_one:
  "aten_threshold_inplace \<lparr>node_kind = ''aten::threshold_'', node_inputs = [], node_outputs = 1\<rparr>
     [Var ''x'' NoType, scalar_const ''int64'' [1, 0, 0, 0, 0, 0, 0, 0],
      scalar_const ''int64'' [0, 0, 0, 0, 0, 0, 0, 0]]
   = Inr (Call ''nn.relu'' [Var ''x'' NoType] NoAttrs)
   \<and> map_sum id sint (read_uint64 [1, 0, 0, 0, 0, 0, 0, 0]) = Inr 1
   \<and> map_sum id float32_val
        (relayToConstant read_float (scalar_const ''int64'' [1, 0, 0, 0, 0, 0, 0, 0]))
       = Inr (Finite (1 / 2 ^ 149))
   \<and> aten_threshold_inplace \<lparr>node_kind = ''aten::threshold_'', node_inputs = [], node_outputs = 1\<rparr>
     [Var ''x'' NoType, scalar_const ''int32'' [1, 0, 0, 0, 0, 0, 0, 0],
      scalar_const ''int32'' [0, 0, 0, 0, 0, 0, 0, 0]]
   = Inr (Call ''nn.relu'' [Var ''x'' NoType] NoAttrs)
   \<and> map_sum id sint (read_int [1, 0, 0, 0, 0, 0, 0, 0]) = Inr 1"
  by (simp add: aten_threshold_inplace_def eval_defs float32_val_def fless_def fgreater_def
      double_1e_7_def)

section \<open>The schedule gate\<close>

text \<open>
  C5. \<open>registerSchedule\<close> fails its assertion for a name that is not in the schedule
  map. When the stored constructor returns a strategy (and the target registry has
  \<^verbatim>\<open>relay.op._Register\<close>), one call to the registry is recorded, for that name, the key
  \<open>FTVMSchedule\<close>, the strategy and priority 10, and the stored constructor becomes one
  that returns null. After a call that returned, a second call for the same name returns
  the state unchanged: it records nothing, so the two calls together record at most one
  installation.
\<close>

theorem registerSchedule_spec:
  "(schedule_map st name = None \<longrightarrow> registerSchedule name st = Inl InternalAssert)
   \<and> (\<forall>f sched. schedule_map st name = Some f \<and> has_relay_op_register st \<and> f () = Some sched \<longrightarrow>
        registerSchedule name st =
          Inr (st\<lparr>register_calls := register_calls st @ [(name, ''FTVMSchedule'', sched, 10)],
                  schedule_map := (schedule_map st)(name \<mapsto> (\<lambda>_. None))\<rparr>))
   \<and> (\<forall>st1. registerSchedule name st = Inr st1 \<longrightarrow>
        registerSchedule name st1 = Inr st1
        \<and> length (register_calls st1) \<le> length (register_calls st) + 1)"
  by (auto simp: registerSchedule_def TORCH_INTERNAL_ASSERT_def bindE_def
      split: option.splits if_splits)

theorem registerSchedule_spec_witness:
  "map_sum id register_calls
     (registerSchedule ''nn.conv2d''
        \<lparr>schedule_map = [''nn.conv2d'' \<mapsto> (\<lambda>_. Some 7)], has_relay_op_register = True,
         register_calls = []\<rparr>)
   = Inr [(''nn.conv2d'', ''FTVMSchedule'', 7, 10)]
   \<and> map_sum id register_calls
     (bindE (registerSchedule ''nn.conv2d''
        \<lparr>schedule_map = [''nn.conv2d'' \<mapsto> (\<lambda>_. Some 7)], has_relay_op_register = True,
         register_calls = []\<rparr>) (registerSchedule ''nn.conv2d''))
   = Inr [(''nn.conv2d'', ''FTVMSchedule'', 7, 10)]
   \<and> registerSchedule ''nn.dense''
        \<lparr>schedule_map = [''nn.conv2d'' \<mapsto> (\<lambda>_. Some 7)], has_relay_op_register = True,
         register_calls = []\<rparr>
   = Inl InternalAssert"
proof -
  let ?st = "\<lparr>schedule_map = [''nn.conv2d'' \<mapsto> (\<lambda>_. Some (7 :: nat))],
              has_relay_op_register = True, register_calls = []\<rparr>"
  let ?st1 = "?st\<lparr>register_calls := register_calls ?st @ [(''nn.conv2d'', ''FTVMSchedule'', 7, 10)],
                  schedule_map := (schedule_map ?st)(''nn.conv2d'' \<mapsto> (\<lambda>_. None))\<rparr>"
  have h: "schedule_map ?st ''nn.conv2d'' = Some (\<lambda>_. Some 7) \<and> has_relay_op_register ?st
      \<and> (\<lambda>_. Some (7 :: nat)) () = Some 7"
    by simp
  from registerSchedule_spec [of ?st "''nn.conv2d''"] h
  have r1: "registerSchedule ''nn.conv2d'' ?st = Inr ?st1" by blast
  with registerSchedule_spec [of ?st "''nn.conv2d''"]
  have r2: "registerSchedule ''nn.conv2d'' ?st1 = Inr ?st1" by blast
  have "schedule_map ?st ''nn.dense'' = None" by simp
  with registerSchedule_spec [of ?st "''nn.dense''"]
  have r3: "registerSchedule ''nn.dense'' ?st = Inl InternalAssert" by blast
  from r1 r2 r3 show ?thesis by simp
qed

section \<open>Dispatch\<close>

lemma getTVMOperatorMap_cases:
  "getTVMOperatorMap ovl k = Some f \<Longrightarrow>
     f \<in> {aten_add, aten_add_inplace, aten_convolution, aten_batch_norm, aten_relu_inplace,
           aten_relu, aten_threshold_inplace, aten_mul, aten_avg_pool2d,
           aten_adaptive_avg_pool2d, aten_max_pool2d, aten_reshape, aten_linear}"
  by (simp add: getTVMOperatorMap_def reg_def split: if_splits)

lemma getTVMOperatorMap_dom:
  "dom (getTVMOperatorMap ovl) =
     {''aten::add'', ''aten::add_'', ''aten::_convolution'', ''aten::batch_norm'',
      ''aten::relu_'', ''aten::relu'', ''aten::threshold_'', ''aten::mul'',
      ''aten::avg_pool2d'', ''aten::adaptive_avg_pool2d'', ''aten::max_pool2d'',
      ''aten::reshape'', ''aten::linear''}"
  by (auto simp: getTVMOperatorMap_def reg_def dom_def split: if_splits)

lemma rules_not_null:
  "aten_add n inputs = Inr e \<Longrightarrow> e \<noteq> NullExpr"
  "aten_add_inplace n inputs = Inr e \<Longrightarrow> e \<noteq> NullExpr"
  "aten_convolution n inputs = Inr e \<Longrightarrow> e \<noteq> NullExpr"
  "aten_batch_norm n inputs = Inr e \<Longrightarrow> e \<noteq> NullExpr"
  "aten_relu_inplace n inputs = Inr e \<Longrightarrow> e \<noteq> NullExpr"
  "aten_relu n inputs = Inr e \<Longrightarrow> e \<noteq> NullExpr"
  "aten_threshold_inplace n inputs = Inr e \<Longrightarrow> e \<noteq> NullExpr"
  "aten_mul n inputs = Inr e \<Longrightarrow> e \<noteq> NullExpr"
  "aten_avg_pool2d n inputs = Inr e \<Longrightarrow> e \<noteq> NullExpr"
  "aten_adaptive_avg_pool2d n inputs = Inr e \<Longrightarrow> e \<noteq> NullExpr"
  "aten_max_pool2d n inputs = Inr e \<Longrightarrow> e \<noteq> NullExpr"
  "aten_reshape n inputs = Inr e \<Longrightarrow> e \<noteq> NullExpr"
  "aten_linear n inputs = Inr e \<Longrightarrow> e \<noteq> NullExpr"
proof -
  show "aten_add n inputs = Inr e \<Longrightarrow> e \<noteq> NullExpr"
    unfolding aten_add_def
    by (elim bindE_InrE) (auto elim!: bindE_InrE split: expr.splits if_splits)
  show "aten_add_inplace n inputs = Inr e \<Longrightarrow> e \<noteq> NullExpr"
    unfolding aten_add_inplace_def
    by (elim bindE_InrE) (auto elim!: bindE_InrE split: expr.splits if_splits)
  show "aten_convolution n inputs = Inr e \<Longrightarrow> e \<noteq> NullExpr"
    unfolding aten_convolution_def Let_def
    by (elim bindE_InrE) (auto split: if_splits)
  show "aten_batch_norm n inputs = Inr e \<Longrightarrow> e \<noteq> NullExpr"
    using aten_batch_norm_InrD by blast
  show "aten_relu_inplace n inputs = Inr e \<Longrightarrow> e \<noteq> NullExpr"
    by (auto simp: aten_relu_inplace_def)
  show "aten_relu n inputs = Inr e \<Longrightarrow> e \<noteq> NullExpr"
    by (auto simp: aten_relu_def)
  show "aten_threshold_inplace n inputs = Inr e \<Longrightarrow> e \<noteq> NullExpr"
    unfolding aten_threshold_inplace_def
    by (elim bindE_InrE) auto
  show "aten_mul n inputs = Inr e \<Longrightarrow> e \<noteq> NullExpr"
    by (auto simp: aten_mul_def)
  show "aten_avg_pool2d n inputs = Inr e \<Longrightarrow> e \<noteq> NullExpr"
    unfolding aten_avg_pool2d_def Let_def
    by (elim bindE_InrE) auto
  show "aten_adaptive_avg_pool2d n inputs = Inr e \<Longrightarrow> e \<noteq> NullExpr"
    unfolding aten_adaptive_avg_pool2d_def
    by (elim bindE_InrE) auto
  show "aten_max_pool2d n inputs = Inr e \<Longrightarrow> e \<noteq> NullExpr"
    unfolding aten_max_pool2d_def Let_def
    by (elim bindE_InrE) auto
  show "aten_reshape n inputs = Inr e \<Longrightarrow> e \<noteq> NullExpr"
    unfolding aten_reshape_def
    by (elim bindE_InrE) auto
  show "aten_linear n inputs = Inr e \<Longrightarrow> e \<noteq> NullExpr"
    unfolding aten_linear_def Let_def
    by (cases "node_inputs n") (auto elim!: bindE_InrE split: if_splits)
qed

lemma getOperator_Some:
  "m (node_kind n) = Some f \<Longrightarrow> getOperator m n inputs = f n inputs"
  by (simp add: getOperator_def isSupported_def TORCH_INTERNAL_ASSERT_def)

lemma rules_return:
  "\<exists>inputs e. aten_add n inputs = Inr e"
  "\<exists>inputs e. aten_add_inplace n inputs = Inr e"
  "\<exists>inputs e. aten_convolution n inputs = Inr e"
  "\<exists>inputs e. aten_batch_norm (n\<lparr>node_outputs := 1\<rparr>) inputs = Inr e"
  "\<exists>inputs e. aten_relu_inplace n inputs = Inr e"
  "\<exists>inputs e. aten_relu n inputs = Inr e"
  "\<exists>inputs e. aten_threshold_inplace n inputs = Inr e"
  "\<exists>inputs e. aten_mul n inputs = Inr e"
  "\<exists>inputs e. aten_avg_pool2d n inputs = Inr e"
  "\<exists>inputs e. aten_adaptive_avg_pool2d n inputs = Inr e"
  "\<exists>inputs e. aten_max_pool2d n inputs = Inr e"
  "\<exists>inputs e. aten_reshape n inputs = Inr e"
  "\<exists>inputs e. aten_linear (n\<lparr>node_inputs := [DimensionedTensor 2]\<rparr>) inputs = Inr e"
proof -
  let ?x = "Var ''x'' NoType"
  let ?i = "\<lambda>k. scalar_const ''int32'' [k, 0, 0, 0]"
  let ?f = "scalar_const ''bool'' [0]"
  let ?z = "scalar_const ''float32'' [0, 0, 0, 0, 0, 0, 0, 0]"
  let ?none = "scalar_const ''uint64'' [54, 240, 188, 202, 222, 58, 250, 228]"
  have "aten_add n [?x, ?x, ?i 1] = Inr (Call ''add'' [?x, ?x] NoAttrs)"
    by (simp add: aten_add_def eval_defs)
  then show "\<exists>inputs e. aten_add n inputs = Inr e" by blast
  have "aten_add_inplace n [?x, ?x, ?i 1] = Inr (Call ''add'' [?x, ?x] NoAttrs)"
    by (simp add: aten_add_inplace_def eval_defs)
  then show "\<exists>inputs e. aten_add_inplace n inputs = Inr e" by blast
  have "\<exists>e. aten_convolution n
          [?x, Var ''w'' (TensorType [8, 3, 3, 3]), ?none, Tuple [?i 1, ?i 1],
           Tuple [?i 0, ?i 0], Tuple [?i 1, ?i 1], ?f,
           Tuple [], ?i 1] = Inr e"
    by (simp add: aten_convolution_def eval_defs)
  then show "\<exists>inputs e. aten_convolution n inputs = Inr e" by blast
  have "\<exists>e. aten_batch_norm (n\<lparr>node_outputs := 1\<rparr>)
          [?x, ?x, ?x, ?x, ?x, ?f, ?z, ?z, ?f] = Inr e"
    by (simp add: aten_batch_norm_def eval_defs)
  then show "\<exists>inputs e. aten_batch_norm (n\<lparr>node_outputs := 1\<rparr>) inputs = Inr e" by blast
  show "\<exists>inputs e. aten_relu_inplace n inputs = Inr e" by (simp add: aten_relu_inplace_def)
  show "\<exists>inputs e. aten_relu n inputs = Inr e" by (simp add: aten_relu_def)
  have "\<exists>e. aten_threshold_inplace n [?x, ?z, ?z] = Inr e"
    by (simp add: aten_threshold_inplace_def eval_defs float32_val_def fless_def fgreater_def
        double_1e_7_def)
  then show "\<exists>inputs e. aten_threshold_inplace n inputs = Inr e" by blast
  show "\<exists>inputs e. aten_mul n inputs = Inr e" by (simp add: aten_mul_def)
  have "\<exists>e. aten_avg_pool2d n [?x, Tuple [?i 3, ?i 3], Tuple [], Tuple [?i 0, ?i 0], ?f, ?f] = Inr e"
    by (simp add: aten_avg_pool2d_def eval_defs)
  then show "\<exists>inputs e. aten_avg_pool2d n inputs = Inr e" by blast
  have "\<exists>e. aten_adaptive_avg_pool2d n [?x, Tuple [?i 1, ?i 1]] = Inr e"
    by (simp add: aten_adaptive_avg_pool2d_def eval_defs)
  then show "\<exists>inputs e. aten_adaptive_avg_pool2d n inputs = Inr e" by blast
  have "\<exists>e. aten_max_pool2d n
          [?x, Tuple [?i 3, ?i 3], Tuple [], Tuple [?i 0, ?i 0], Tuple [?i 1, ?i 1], ?f] = Inr e"
    by (simp add: aten_max_pool2d_def eval_defs)
  then show "\<exists>inputs e. aten_max_pool2d n inputs = Inr e" by blast
  have "\<exists>e. aten_reshape n [?x, Tuple [?i 255, ?i 4]] = Inr e"
    by (simp add: aten_reshape_def eval_defs)
  then show "\<exists>inputs e. aten_reshape n inputs = Inr e" by blast
  have "\<exists>e. aten_linear (n\<lparr>node_inputs := [DimensionedTensor 2]\<rparr>) [?x, ?x, ?none] = Inr e"
    by (simp add: aten_linear_def eval_defs)
  then show "\<exists>inputs e. aten_linear (n\<lparr>node_inputs := [DimensionedTensor 2]\<rparr>) inputs = Inr e"
    by blast
qed

lemma registered_rules_return:
  assumes "k \<in> dom (getTVMOperatorMap ovl)"
  shows "\<exists>n inputs e. node_kind n = k \<and> getOperator (getTVMOperatorMap ovl) n inputs = Inr e"
proof -
  let ?n = "\<lparr>node_kind = k, node_inputs = [DimensionedTensor 2], node_outputs = 1\<rparr>"
  from assms obtain f where f: "getTVMOperatorMap ovl k = Some f" by blast
  have "\<exists>inputs e. f ?n inputs = Inr e"
    using getTVMOperatorMap_cases [OF f]
      rules_return [of ?n]
    by auto
  then obtain inputs e where "f ?n inputs = Inr e" by blast
  with f have "getOperator (getTVMOperatorMap ovl) ?n inputs = Inr e"
    by (simp add: getOperator_Some)
  then show ?thesis
    by (intro exI [of _ ?n] exI [of _ inputs] exI [of _ e]) simp
qed

lemma aten_adaptive_avg_pool2d_Inr_iff:
  "aten_adaptive_avg_pool2d n inputs = Inr e \<longleftrightarrow>
     2 \<le> length inputs
     \<and> (\<exists>output_size. relayToArray (inputs ! 1) = Inr output_size
          \<and> e = Call ''contrib.adaptive_avg_pool2d'' [inputs ! 0] (AdaptivePool2DAttrs
                \<lparr>adp_output_size = output_size, adp_layout = ''NCHW''\<rparr>))"
  (is "?l \<longleftrightarrow> ?r")
proof
  assume ?l
  then show ?r
    unfolding aten_adaptive_avg_pool2d_def
    by (elim bindE_InrE array_at_InrE) auto
next
  assume ?r
  then show ?l
    by (auto simp: aten_adaptive_avg_pool2d_def array_at_def)
qed

lemma aten_adaptive_avg_pool2d_returns:
  "(\<exists>e. aten_adaptive_avg_pool2d n inputs = Inr e) \<longleftrightarrow>
     2 \<le> length inputs \<and> int_tuple (inputs ! 1)"
  unfolding aten_adaptive_avg_pool2d_Inr_iff relayToArray_ex [symmetric]
  by blast

lemma aten_reshape_Inr_iff:
  "aten_reshape n inputs = Inr e \<longleftrightarrow>
     2 \<le> length inputs
     \<and> (\<exists>newshape. relayToArray (inputs ! 1) = Inr newshape \<and> newshape \<noteq> []
          \<and> e = Call ''reshape'' [inputs ! 0] (ReshapeAttrs
                \<lparr>rs_newshape = newshape, rs_reverse = False\<rparr>))"
  (is "?l \<longleftrightarrow> ?r")
proof
  assume ?l
  then show ?r
    unfolding aten_reshape_def
    by (elim bindE_InrE array_at_InrE) (auto simp: TORCH_INTERNAL_ASSERT_def split: if_splits)
next
  assume ?r
  then show ?l
    by (auto simp: aten_reshape_def array_at_def TORCH_INTERNAL_ASSERT_def)
qed

lemma aten_reshape_returns:
  "(\<exists>e. aten_reshape n inputs = Inr e) \<longleftrightarrow>
     2 \<le> length inputs \<and> int_tuple (inputs ! 1) \<and> inputs ! 1 \<noteq> Tuple []"
proof -
  have "(\<exists>newshape. relayToArray (inputs ! 1) = Inr newshape \<and> newshape \<noteq> []) \<longleftrightarrow>
      int_tuple (inputs ! 1) \<and> inputs ! 1 \<noteq> Tuple []"
    unfolding relayToArray_ex [symmetric] relayToArray_Nil_iff [symmetric] by auto
  then show ?thesis
    unfolding aten_reshape_Inr_iff by blast
qed

lemma aten_linear_Inr_iff:
  "aten_linear n inputs = Inr e \<longleftrightarrow>
     (case node_inputs n of
        [] \<Rightarrow> False
      | t # _ \<Rightarrow> (case t of DimensionedTensor d \<Rightarrow> d = 2 | OtherValueType \<Rightarrow> True))
     \<and> 3 \<le> length inputs
     \<and> (\<exists>none2. relayIsNone (inputs ! 2) = Inr none2
          \<and> e = (let out = Call ''nn.dense'' [inputs ! 0, inputs ! 1] DenseAttrs
                 in if none2 then out
                    else Call ''nn.bias_add'' [out, inputs ! 2] (BiasAddAttrs 1)))"
proof (cases "node_inputs n")
  case Nil
  then show ?thesis by (simp add: aten_linear_def)
next
  case (Cons t ts)
  define ok where "ok = (case t of DimensionedTensor d \<Rightarrow> d = 2 | OtherValueType \<Rightarrow> True)"
  have chk: "(case t of
           DimensionedTensor n_dim \<Rightarrow>
             TORCH_CHECK (n_dim = 2)
               ''WARNING: relay does not support dense operation on inputs more than 2 dim''
         | OtherValueType \<Rightarrow> Inr ()) = Inr u \<longleftrightarrow> ok" for u
    by (cases t) (simp_all add: ok_def TORCH_CHECK_def)
  have "aten_linear n inputs = Inr e \<longleftrightarrow>
      ok \<and> 3 \<le> length inputs
      \<and> (\<exists>none2. relayIsNone (inputs ! 2) = Inr none2
          \<and> e = (let out = Call ''nn.dense'' [inputs ! 0, inputs ! 1] DenseAttrs
                 in if none2 then out
                    else Call ''nn.bias_add'' [out, inputs ! 2] (BiasAddAttrs 1)))"
    (is "?l \<longleftrightarrow> ?r")
  proof
    assume ?l
    then show ?r
      unfolding aten_linear_def Let_def Cons list.case
      by (elim bindE_InrE array_at_InrE) (auto simp: chk split: if_splits)
  next
    assume r: ?r
    then have "(case t of
           DimensionedTensor n_dim \<Rightarrow>
             TORCH_CHECK (n_dim = 2)
               ''WARNING: relay does not support dense operation on inputs more than 2 dim''
         | OtherValueType \<Rightarrow> Inr ()) = Inr ()"
      by (simp add: chk)
    with r show ?l
      by (auto simp: aten_linear_def Cons array_at_def Let_def)
  qed
  then show ?thesis by (simp add: Cons ok_def)
qed

lemma aten_linear_returns:
  "(\<exists>e. aten_linear n inputs = Inr e) \<longleftrightarrow>
     (case node_inputs n of
        [] \<Rightarrow> False
      | t # _ \<Rightarrow> (case t of DimensionedTensor d \<Rightarrow> d = 2 | OtherValueType \<Rightarrow> True))
     \<and> 3 \<le> length inputs \<and> none_testable (inputs ! 2)"
  unfolding aten_linear_Inr_iff relayIsNone_ex [symmetric]
  by blast

lemma pass_through_returns:
  "\<exists>e. aten_relu_inplace n inputs = Inr e"
  "\<exists>e. aten_relu n inputs = Inr e"
  "\<exists>e. aten_mul n inputs = Inr e"
  by (simp_all add: aten_relu_inplace_def aten_relu_def aten_mul_def)

lemma getTVMOperatorMap_SomeD:
  "getTVMOperatorMap ovl k = Some f \<Longrightarrow>
     k = ''aten::add'' \<and> f = aten_add
     \<or> k = ''aten::add_'' \<and> f = aten_add_inplace
     \<or> k = ''aten::_convolution'' \<and> f = aten_convolution
     \<or> k = ''aten::batch_norm'' \<and> f = aten_batch_norm
     \<or> k = ''aten::relu_'' \<and> f = aten_relu_inplace
     \<or> k = ''aten::relu'' \<and> f = aten_relu
     \<or> k = ''aten::threshold_'' \<and> f = aten_threshold_inplace
     \<or> k = ''aten::mul'' \<and> f = aten_mul
     \<or> k = ''aten::avg_pool2d'' \<and> f = aten_avg_pool2d
     \<or> k = ''aten::adaptive_avg_pool2d'' \<and> f = aten_adaptive_avg_pool2d
     \<or> k = ''aten::max_pool2d'' \<and> f = aten_max_pool2d
     \<or> k = ''aten::reshape'' \<and> f = aten_reshape
     \<or> k = ''aten::linear'' \<and> f = aten_linear"
  by (simp add: getTVMOperatorMap_def reg_def split: if_splits)

lemma registered_rule_returns_iff:
  assumes "getTVMOperatorMap ovl (node_kind n) = Some f"
  shows "(\<exists>e. f n inputs = Inr e) \<longleftrightarrow> well_formed n inputs"
  using getTVMOperatorMap_SomeD [OF assms]
proof (elim disjE conjE)
  assume "node_kind n = ''aten::add''" "f = aten_add"
  then show ?thesis by (simp add: well_formed_def aten_add_returns)
next
  assume "node_kind n = ''aten::add_''" "f = aten_add_inplace"
  then show ?thesis by (simp add: well_formed_def aten_add_returns)
next
  assume "node_kind n = ''aten::_convolution''" "f = aten_convolution"
  then show ?thesis by (simp add: well_formed_def aten_convolution_returns)
next
  assume "node_kind n = ''aten::batch_norm''" "f = aten_batch_norm"
  then show ?thesis by (simp add: well_formed_def aten_batch_norm_returns)
next
  assume "node_kind n = ''aten::relu_''" "f = aten_relu_inplace"
  then show ?thesis by (simp add: well_formed_def pass_through_returns)
next
  assume "node_kind n = ''aten::relu''" "f = aten_relu"
  then show ?thesis by (simp add: well_formed_def pass_through_returns)
next
  assume "node_kind n = ''aten::threshold_''" "f = aten_threshold_inplace"
  then show ?thesis by (simp add: well_formed_def aten_threshold_returns)
next
  assume "node_kind n = ''aten::mul''" "f = aten_mul"
  then show ?thesis by (simp add: well_formed_def pass_through_returns)
next
  assume "node_kind n = ''aten::avg_pool2d''" "f = aten_avg_pool2d"
  then show ?thesis by (simp add: well_formed_def aten_avg_pool2d_returns)
next
  assume "node_kind n = ''aten::adaptive_avg_pool2d''" "f = aten_adaptive_avg_pool2d"
  then show ?thesis by (simp add: well_formed_def aten_adaptive_avg_pool2d_returns)
next
  assume "node_kind n = ''aten::max_pool2d''" "f = aten_max_pool2d"
  then show ?thesis by (simp add: well_formed_def aten_max_pool2d_returns)
next
  assume "node_kind n = ''aten::reshape''" "f = aten_reshape"
  then show ?thesis by (simp add: well_formed_def aten_reshape_returns)
next
  assume "node_kind n = ''aten::linear''" "f = aten_linear"
  then show ?thesis by (simp add: well_formed_def aten_linear_returns)
qed

lemma well_formed_registered:
  "well_formed n inputs \<Longrightarrow> node_kind n \<in> dom (getTVMOperatorMap ovl)"
  by (auto simp: well_formed_def Let_def getTVMOperatorMap_dom split: if_splits)

text \<open>
  C1. For any operator map: a node whose kind is not in the map is not supported and
  \<open>getOperator\<close> fails its assertion; a node whose kind is mapped to a rule is
  supported and \<open>getOperator\<close> returns exactly what the rule returns on the node and
  the inputs. For the map the static table registers: every expression a rule returns
  is not the null expression; for every registered identifier there is a node of that
  kind and a list of inputs on which \<open>getOperator\<close> returns an expression; and
  \<open>getOperator\<close> returns a non-null expression exactly for the well-formed nodes and
  inputs, so it returns one for every well-formed node of every registered kind.
\<close>

theorem getOperator_spec:
  "(m (node_kind n) = None \<longrightarrow>
      \<not> isSupported m n \<and> getOperator m n inputs = Inl InternalAssert)
   \<and> (\<forall>f. m (node_kind n) = Some f \<longrightarrow>
        isSupported m n \<and> getOperator m n inputs = f n inputs)
   \<and> (\<forall>f. getTVMOperatorMap ovl (node_kind n) = Some f \<longrightarrow>
        isSupported (getTVMOperatorMap ovl) n
        \<and> getOperator (getTVMOperatorMap ovl) n inputs = f n inputs
        \<and> (\<forall>e. f n inputs = Inr e \<longrightarrow> e \<noteq> NullExpr))
   \<and> (\<forall>k \<in> dom (getTVMOperatorMap ovl).
        \<exists>n' inputs' e. node_kind n' = k
          \<and> getOperator (getTVMOperatorMap ovl) n' inputs' = Inr e \<and> e \<noteq> NullExpr)
   \<and> ((\<exists>e. getOperator (getTVMOperatorMap ovl) n inputs = Inr e \<and> e \<noteq> NullExpr)
        \<longleftrightarrow> well_formed n inputs)"
proof (intro conjI allI impI ballI)
  fix f e assume "getTVMOperatorMap ovl (node_kind n) = Some f" and "f n inputs = Inr e"
  then show "e \<noteq> NullExpr"
    using getTVMOperatorMap_cases [of ovl "node_kind n" f] rules_not_null [of n inputs e]
    by auto
next
  fix k assume k: "k \<in> dom (getTVMOperatorMap ovl)"
  from registered_rules_return [OF k] obtain n' inputs' e
    where n': "node_kind n' = k" and r: "getOperator (getTVMOperatorMap ovl) n' inputs' = Inr e"
    by blast
  from k n' obtain f where f: "getTVMOperatorMap ovl (node_kind n') = Some f" by auto
  with r have "f n' inputs' = Inr e" by (simp add: getOperator_Some)
  with f have "e \<noteq> NullExpr"
    using getTVMOperatorMap_cases [of ovl "node_kind n'" f] rules_not_null [of n' inputs' e]
    by auto
  with n' r show "\<exists>n' inputs' e. node_kind n' = k
      \<and> getOperator (getTVMOperatorMap ovl) n' inputs' = Inr e \<and> e \<noteq> NullExpr"
    by blast
next
  show "(\<exists>e. getOperator (getTVMOperatorMap ovl) n inputs = Inr e \<and> e \<noteq> NullExpr)
        \<longleftrightarrow> well_formed n inputs"
  proof (cases "getTVMOperatorMap ovl (node_kind n)")
    case None
    then have "getOperator (getTVMOperatorMap ovl) n inputs = Inl InternalAssert"
      by (simp add: getOperator_def isSupported_def TORCH_INTERNAL_ASSERT_def)
    moreover from None have "\<not> well_formed n inputs"
      using well_formed_registered [of n inputs ovl] by auto
    ultimately show ?thesis by simp
  next
    case (Some f)
    then have g: "getOperator (getTVMOperatorMap ovl) n inputs = f n inputs"
      by (rule getOperator_Some)
    have "e \<noteq> NullExpr" if "f n inputs = Inr e" for e
      using that Some getTVMOperatorMap_cases [of ovl "node_kind n" f]
        rules_not_null [of n inputs e]
      by auto
    then have "(\<exists>e. f n inputs = Inr e \<and> e \<noteq> NullExpr) \<longleftrightarrow> (\<exists>e. f n inputs = Inr e)"
      by blast
    with g registered_rule_returns_iff [OF Some, of inputs] show ?thesis by simp
  qed
qed (simp_all add: isSupported_def getOperator_def TORCH_INTERNAL_ASSERT_def)

theorem getOperator_spec_witness:
  "isSupported (getTVMOperatorMap (\<lambda>_. 1))
     \<lparr>node_kind = ''aten::relu'', node_inputs = [OtherValueType], node_outputs = 1\<rparr>
   \<and> getOperator (getTVMOperatorMap (\<lambda>_. 1))
     \<lparr>node_kind = ''aten::relu'', node_inputs = [OtherValueType], node_outputs = 1\<rparr>
     [Var ''x'' NoType]
   = Inr (Call ''nn.relu'' [Var ''x'' NoType] NoAttrs)
   \<and> Call ''nn.relu'' [Var ''x'' NoType] NoAttrs \<noteq> NullExpr
   \<and> getOperator (getTVMOperatorMap (\<lambda>_. 1))
     \<lparr>node_kind = ''aten::sub'', node_inputs = [OtherValueType], node_outputs = 1\<rparr>
     [Var ''x'' NoType]
   = Inl InternalAssert
   \<and> well_formed \<lparr>node_kind = ''aten::mul'', node_inputs = [], node_outputs = 1\<rparr>
       [Var ''x'' NoType, Var ''y'' NoType]
   \<and> getOperator (getTVMOperatorMap (\<lambda>_. 1))
       \<lparr>node_kind = ''aten::mul'', node_inputs = [], node_outputs = 1\<rparr>
       [Var ''x'' NoType, Var ''y'' NoType]
     = Inr (Call ''multiply'' [Var ''x'' NoType, Var ''y'' NoType] NoAttrs)
   \<and> well_formed \<lparr>node_kind = ''aten::adaptive_avg_pool2d'', node_inputs = [], node_outputs = 1\<rparr>
       [Var ''x'' NoType,
        Tuple [scalar_const ''int32'' [7, 0, 0, 0], scalar_const ''int32'' [7, 0, 0, 0]]]
   \<and> getOperator (getTVMOperatorMap (\<lambda>_. 1))
       \<lparr>node_kind = ''aten::adaptive_avg_pool2d'', node_inputs = [], node_outputs = 1\<rparr>
       [Var ''x'' NoType,
        Tuple [scalar_const ''int32'' [7, 0, 0, 0], scalar_const ''int32'' [7, 0, 0, 0]]]
     = Inr (Call ''contrib.adaptive_avg_pool2d'' [Var ''x'' NoType]
              (AdaptivePool2DAttrs \<lparr>adp_output_size = [7, 7], adp_layout = ''NCHW''\<rparr>))"
proof -
  let ?m = "getTVMOperatorMap (\<lambda>_. 1)"
  let ?n = "\<lparr>node_kind = ''aten::relu'', node_inputs = [OtherValueType], node_outputs = 1\<rparr>"
  let ?u = "\<lparr>node_kind = ''aten::sub'', node_inputs = [OtherValueType], node_outputs = 1\<rparr>"
  let ?mu = "\<lparr>node_kind = ''aten::mul'', node_inputs = [], node_outputs = 1\<rparr>"
  let ?ad = "\<lparr>node_kind = ''aten::adaptive_avg_pool2d'', node_inputs = [], node_outputs = 1\<rparr>"
  let ?xy = "[Var ''x'' NoType, Var ''y'' NoType]"
  let ?ai = "[Var ''x'' NoType,
        Tuple [scalar_const ''int32'' [7, 0, 0, 0], scalar_const ''int32'' [7, 0, 0, 0]]]"
  have h: "?m (node_kind ?n) = Some aten_relu"
    by (simp add: getTVMOperatorMap_def reg_def)
  have u: "?m (node_kind ?u) = None"
    by (simp add: getTVMOperatorMap_def reg_def)
  have hm: "?m (node_kind ?mu) = Some aten_mul"
    by (simp add: getTVMOperatorMap_def reg_def)
  have ha: "?m (node_kind ?ad) = Some aten_adaptive_avg_pool2d"
    by (simp add: getTVMOperatorMap_def reg_def)
  have r: "aten_relu ?n [Var ''x'' NoType] = Inr (Call ''nn.relu'' [Var ''x'' NoType] NoAttrs)"
    by (simp add: aten_relu_def)
  have wm: "well_formed ?mu ?xy"
    by (simp add: well_formed_def)
  have wa: "well_formed ?ad ?ai"
    by (simp add: well_formed_def int_tuple_def scalar_with_def scalar_const_def is_scalar_def)
  from getOperator_spec [of ?m ?n "[Var ''x'' NoType]" "\<lambda>_. 1"] h r
  have "isSupported ?m ?n"
    and "getOperator ?m ?n [Var ''x'' NoType] = Inr (Call ''nn.relu'' [Var ''x'' NoType] NoAttrs)"
    and "Call ''nn.relu'' [Var ''x'' NoType] NoAttrs \<noteq> NullExpr"
    by auto
  moreover from getOperator_spec [of ?m ?u "[Var ''x'' NoType]" "\<lambda>_. 1"] u
  have "getOperator ?m ?u [Var ''x'' NoType] = Inl InternalAssert"
    by blast
  moreover from getOperator_spec [of ?m ?mu ?xy "\<lambda>_. 1"] wm hm
  have "getOperator ?m ?mu ?xy = Inr (Call ''multiply'' ?xy NoAttrs)"
    by (auto simp: aten_mul_def)
  moreover from getOperator_spec [of ?m ?ad ?ai "\<lambda>_. 1"] wa ha
  have "getOperator ?m ?ad ?ai
     = Inr (Call ''contrib.adaptive_avg_pool2d'' [Var ''x'' NoType]
              (AdaptivePool2DAttrs \<lparr>adp_output_size = [7, 7], adp_layout = ''NCHW''\<rparr>))"
    by (auto simp: aten_adaptive_avg_pool2d_def eval_defs)
  ultimately show ?thesis using wm wa by simp
qed

end
